theory Spec2Isabelle
  imports Main "HOL-Library.Sublist" "HOL-Library.AList" "HOL-Library.Char_ord" "HOL-Library.List_Lexorder"
begin

section \<open>JavaScript values used by the package writer\<close>

text \<open>
  A JavaScript string is truthy exactly when it is not empty; a missing property
  (\<open>undefined\<close>) is falsy. Both tests \<open>if (x)\<close> and \<open>a || b\<close> of the source go
  through this.
\<close>

definition truthy :: "string option \<Rightarrow> bool" where
  "truthy v = (case v of None \<Rightarrow> False | Some s \<Rightarrow> s \<noteq> [])"

text \<open>\<open>a || b\<close> on two possibly missing strings.\<close>

definition js_or :: "string option \<Rightarrow> string option \<Rightarrow> string option" where
  "js_or a b = (if truthy a then a else b)"

text \<open>\<open>String.prototype.startsWith\<close>.\<close>

definition startsWith :: "string \<Rightarrow> string \<Rightarrow> bool" where
  "startsWith s p = (take (length p) s = p)"

subsection \<open>Decimal rendering of integers\<close>

text \<open>
  A template literal renders an integral Number in decimal, with a leading minus sign
  when it is negative. (Exponent notation starts at \<open>1e21\<close>, far outside the range of
  \<open>Date.now()\<close>.)
\<close>

definition digit_char :: "nat \<Rightarrow> char" where
  "digit_char d = ''0123456789'' ! d"

fun string_of_nat :: "nat \<Rightarrow> string" where
  "string_of_nat n =
     (if n < 10 then [digit_char n]
      else string_of_nat (n div 10) @ [digit_char (n mod 10)])"

declare string_of_nat.simps [simp del]

definition string_of_int :: "int \<Rightarrow> string" where
  "string_of_int i =
     (if i < 0 then CHR ''-'' # string_of_nat (nat (- i)) else string_of_nat (nat i))"

section \<open>Watch versions\<close>

text \<open>
  \<open>generateWatchVersion\<close> reads the clock; the model takes the value of
  \<open>Date.now()\<close> (milliseconds since the epoch) as its argument.
\<close>

definition generateWatchVersion :: "int \<Rightarrow> string" where
  "generateWatchVersion now = ''0.0.0-watch+'' @ string_of_int now"

section \<open>Paths\<close>

text \<open>
  The source computes with Node's \<open>path\<close> module. The model is its POSIX flavour,
  working on the segments between slashes: \<open>normalizeString\<close> drops empty and \<open>.\<close>
  segments and lets \<open>..\<close> cancel the segment before it; above the start of a relative
  path the \<open>..\<close> is kept, above the root it is dropped.
\<close>

fun splitSlash :: "string \<Rightarrow> string list" where
  "splitSlash [] = [[]]"
| "splitSlash (c # cs) =
     (if c = CHR ''/'' then [] # splitSlash cs
      else (case splitSlash cs of [] \<Rightarrow> [[c]] | s # ss \<Rightarrow> (c # s) # ss))"

fun joinSlash :: "string list \<Rightarrow> string" where
  "joinSlash [] = []"
| "joinSlash [s] = s"
| "joinSlash (s # t # ss) = s @ CHR ''/'' # joinSlash (t # ss)"

definition normalizeStep :: "bool \<Rightarrow> string list \<Rightarrow> string \<Rightarrow> string list" where
  "normalizeStep allowAboveRoot res seg =
     (if seg = [] \<or> seg = ''.'' then res
      else if seg = ''..'' then
        (if res \<noteq> [] \<and> last res \<noteq> ''..'' then butlast res
         else if allowAboveRoot then res @ [''..'']
         else res)
      else res @ [seg])"

definition normalizeParts :: "bool \<Rightarrow> string \<Rightarrow> string list" where
  "normalizeParts allowAboveRoot path = foldl (normalizeStep allowAboveRoot) [] (splitSlash path)"

definition normalizeString :: "string \<Rightarrow> bool \<Rightarrow> string" where
  "normalizeString path allowAboveRoot = joinSlash (normalizeParts allowAboveRoot path)"

definition isAbsolute :: "string \<Rightarrow> bool" where
  "isAbsolute path = (case path of [] \<Rightarrow> False | c # _ \<Rightarrow> c = CHR ''/'')"

definition path_normalize :: "string \<Rightarrow> string" where
  "path_normalize path =
     (if path = [] then ''.''
      else
        let trailingSeparator = (last path = CHR ''/'');
            p = normalizeString path (\<not> isAbsolute path)
        in if p = [] then
             (if isAbsolute path then ''/'' else if trailingSeparator then ''./'' else ''.'')
           else
             let p' = (if trailingSeparator then p @ ''/'' else p)
             in if isAbsolute path then CHR ''/'' # p' else p')"

text \<open>\<open>path.join(a, b)\<close>: the non-empty arguments joined by a slash, then normalised.\<close>

definition path_join :: "string \<Rightarrow> string \<Rightarrow> string" where
  "path_join a b =
     (let joined = (if a = [] then b else if b = [] then a else a @ ''/'' @ b)
      in if joined = [] then ''.'' else path_normalize joined)"

text \<open>
  \<open>path.resolve(p)\<close> with the working directory \<open>cwd\<close> of the process, which Node
  reports as an absolute path.
\<close>

definition path_resolve :: "string \<Rightarrow> string \<Rightarrow> string" where
  "path_resolve cwd p =
     (let s1 = (if p = [] then [] else p @ ''/'');
          s2 = (if isAbsolute p \<or> cwd = [] then s1 else cwd @ ''/'' @ s1);
          resolvedAbsolute = (isAbsolute p \<or> isAbsolute cwd);
          r = normalizeString s2 (\<not> resolvedAbsolute)
      in if resolvedAbsolute then CHR ''/'' # r
         else if r \<noteq> [] then r else ''.'')"

text \<open>The segments of a resolved path: \<open>/a/b\<close> has \<open>[a, b]\<close>, the root has none.\<close>

definition pathParts :: "string \<Rightarrow> string list" where
  "pathParts p = filter (\<lambda>s. s \<noteq> []) (splitSlash p)"

fun commonPrefixLength :: "string list \<Rightarrow> string list \<Rightarrow> nat" where
  "commonPrefixLength (x # xs) (y # ys) = (if x = y then Suc (commonPrefixLength xs ys) else 0)"
| "commonPrefixLength _ _ = 0"

text \<open>
  \<open>path.relative(from, to)\<close>: both resolved, one \<open>..\<close> for every segment of
  \<open>from\<close> below the common ancestor, then the segments of \<open>to\<close> below it.
\<close>

definition path_relative :: "string \<Rightarrow> string \<Rightarrow> string \<Rightarrow> string" where
  "path_relative cwd from to =
     (if from = to then []
      else
        let f = path_resolve cwd from; t = path_resolve cwd to
        in if f = t then []
           else
             let fp = pathParts f; tp = pathParts t; c = commonPrefixLength fp tp
             in joinSlash (replicate (length fp - c) ''..'' @ drop c tp))"

text \<open>\<open>path.basename(p)\<close>: the last segment, trailing slashes ignored.\<close>

definition path_basename :: "string \<Rightarrow> string" where
  "path_basename p =
     rev (takeWhile (\<lambda>c. c \<noteq> CHR ''/'') (dropWhile (\<lambda>c. c = CHR ''/'') (rev p)))"

text \<open>
  \<open>path.dirname(p)\<close>: scanning from the end down to index 1, skip trailing slashes,
  skip the last segment, and cut at the slash before it.
\<close>

definition path_dirname :: "string \<Rightarrow> string" where
  "path_dirname p =
     (case p of
        [] \<Rightarrow> ''.''
      | c # cs \<Rightarrow>
          (case dropWhile (\<lambda>c. c \<noteq> CHR ''/'') (dropWhile (\<lambda>c. c = CHR ''/'') (rev cs)) of
             [] \<Rightarrow> (if c = CHR ''/'' then ''/'' else ''.'')
           | _ # front \<Rightarrow>
               (if c = CHR ''/'' \<and> front = [] then ''//'' else c # rev front)))"

text \<open>
  \<open>isAncestorPath\<close> of \<open>copyAssets\<close>: the relative path from \<open>datum\<close> to
  \<open>target\<close> starts with two dots.
\<close>

definition isAncestorPath :: "string \<Rightarrow> string \<Rightarrow> string \<Rightarrow> bool" where
  "isAncestorPath cwd target datum = startsWith (path_relative cwd datum target) ''..''"

text \<open>
  Containment, stated on resolved paths and not through \<open>path.relative\<close>: \<open>p\<close> is
  within \<open>root\<close> when the segments of \<open>root\<close> are the first segments of \<open>p\<close>.
\<close>

definition within :: "string \<Rightarrow> string \<Rightarrow> string \<Rightarrow> bool" where
  "within cwd root p = prefix (pathParts (path_resolve cwd root)) (pathParts (path_resolve cwd p))"

text \<open>
  A segment that normalisation keeps as it is: not empty, not a single dot, and without
  a slash. It is a name, or two dots.
\<close>

definition kept :: "string \<Rightarrow> bool" where
  "kept s = (s \<noteq> [] \<and> s \<noteq> ''.'' \<and> CHR ''/'' \<notin> set s)"


section \<open>Package manifests\<close>

text \<open>
  A manifest (\<open>package.json\<close>) with the sections the writer reads or sets, each in the
  shape npm gives it: \<open>dependencies\<close>, \<open>peerDependencies\<close> and \<open>scripts\<close> are
  objects from names to strings, \<open>exports\<close> is an object from subpaths to conditional
  exports. Objects are association lists in insertion order. Every other top-level
  property is kept in \<open>other\<close> with its JSON text. An absent property is \<open>None\<close>.
\<close>

type_synonym ConditionalExport = "(string \<times> string) list"

type_synonym PackageExports = "(string \<times> ConditionalExport) list"

datatype side_effects = SideEffectsFlag bool | SideEffectsFiles "string list"

record manifest =
  name :: "string option"
  version :: "string option"
  module :: "string option"
  typings :: "string option"
  exports :: "PackageExports option"
  sideEffects :: "side_effects option"
  dependencies :: "(string \<times> string) list option"
  peerDependencies :: "(string \<times> string) list option"
  scripts :: "(string \<times> string) list option"
  other :: "(string \<times> string) list"

definition emptyManifest :: manifest where
  "emptyManifest =
     \<lparr>name = None, version = None, module = None, typings = None, exports = None,
      sideEffects = None, dependencies = None, peerDependencies = None, scripts = None,
      other = []\<rparr>"

text \<open>\<open>obj?.key\<close> on an object that may be absent.\<close>

definition getProp :: "(string \<times> string) list option \<Rightarrow> string \<Rightarrow> string option" where
  "getProp obj key = (case obj of None \<Rightarrow> None | Some kvs \<Rightarrow> map_of kvs key)"

text \<open>\<open>{...obj}\<close>: spreading an absent object gives no property.\<close>

definition spread :: "(string \<times> string) list option \<Rightarrow> (string \<times> string) list" where
  "spread obj = (case obj of None \<Rightarrow> [] | Some kvs \<Rightarrow> kvs)"

section \<open>Entry points, packages, the build graph\<close>

datatype CompilationMode = Partial | Full | Unspecified

record DestinationFiles =
  directory :: string
  declarationsBundled :: string
  fesm2022 :: string

record NgEntryPoint =
  moduleId :: string
  destinationPath :: string
  packageJson :: manifest
  isSecondaryEntryPoint :: bool
  entryDestinationFiles :: DestinationFiles

text \<open>
  The data of an entry-point node: the entry point, its destination files, the
  compilation mode of its compiler options, and whether the node is the one in
  progress (\<open>isInProgress\<close>).
\<close>

record EntryPointNode =
  url :: string
  entryPoint :: NgEntryPoint
  destinationFiles :: DestinationFiles
  compilationMode :: CompilationMode
  inProgress :: bool

record AssetEntry =
  glob :: string
  input :: string
  "output" :: string
  ignore :: "string list option"
  followSymlinks :: "bool option"

datatype AssetPattern = AssetString string | AssetObject AssetEntry

record NgPackage =
  src :: string
  dest :: string
  assets :: "AssetPattern list"
  allowedNonPeerDependencies :: "string list"
  keepLifecycleScripts :: bool
  primary :: NgEntryPoint

text \<open>
  The build graph: the entry-point nodes, the package node, the nodes of plain files by
  URI, and the \<open>dependsOn\<close> edges (dependent, dependency).
\<close>

record PackageNode =
  packageUrl :: string
  packageData :: NgPackage

record BuildGraph =
  entryPointNodes :: "EntryPointNode list"
  packageNode :: "PackageNode option"
  fileNodes :: "string list"
  edges :: "(string \<times> string) list"

section \<open>Errors, the file system, the progress reporter\<close>

datatype error = Error string | TypeError | SyntaxError

datatype file_content = Text string | Json manifest

datatype fs_node = File file_content | Directory | Special

type_synonym filesystem = "string \<Rightarrow> fs_node option"

datatype fs_op =
    WriteFile string file_content
  | CopyFile string string
  | Rmdir string

datatype log_event =
    SpinnerStart string
  | SpinnerSucceed
  | SpinnerSucceedWith string
  | SpinnerFail
  | SpinnerInfo string
  | SpinnerWarn string
  | LogWarn string
  | LogDebug string

text \<open>
  The state the transform works on: the files, the file operations performed so far
  (oldest first), what was reported, and the graph.
\<close>

record world =
  fs :: filesystem
  ops :: "fs_op list"
  logs :: "log_event list"
  graph :: BuildGraph

record Stats =
  isDirectory :: bool
  isFile :: bool

record GlobOptions =
  globCwd :: string
  globIgnore :: "string list"
  dot :: bool
  onlyFiles :: bool
  followSymbolicLinks :: "bool option"

text \<open>
  What the writer takes from outside the repository: the working directory; the
  \<open>glob\<close> of tinyglobby over the files present; \<open>ensureUnixPath\<close> and \<open>fileUrl\<close>;
  the \<open>RegExp\<close> constructor, which gives the test of a pattern or fails on a pattern
  that is no regular expression; and the manifest of \<open>@angular/compiler\<close>.
\<close>

record externals =
  processCwd :: string
  globFiles :: "filesystem \<Rightarrow> string \<Rightarrow> GlobOptions \<Rightarrow> string list"
  ensureUnixPath :: "string \<Rightarrow> string"
  fileUrl :: "string \<Rightarrow> string"
  newRegExp :: "string \<Rightarrow> (string \<Rightarrow> bool) option"
  angularCompilerPackageJson :: manifest

text \<open>
  The helpers of \<open>utils/fs\<close> and \<open>utils/log\<close>, the progress reporter and the
  classes of the graph are used by the source but are not among its files. Each is
  modelled from the spec's description of the collaborator, on the map from paths to
  files.
\<close>

text \<open>
  Modelled from the spec: \<open>stat\<close> of \<open>utils/fs\<close>. It fails on a path that is not
  there, and otherwise tells a directory from a file from anything else.
\<close>

definition fs_stat :: "filesystem \<Rightarrow> string \<Rightarrow> error + Stats" where
  "fs_stat f p =
     (case f p of
        None \<Rightarrow> Inl (Error ''ENOENT'')
      | Some Directory \<Rightarrow> Inr \<lparr>isDirectory = True, isFile = False\<rparr>
      | Some (File _) \<Rightarrow> Inr \<lparr>isDirectory = False, isFile = True\<rparr>
      | Some Special \<Rightarrow> Inr \<lparr>isDirectory = False, isFile = False\<rparr>)"


text \<open>
  Modelled from the spec: \<open>readFile\<close> of \<open>utils/fs\<close>, the UTF-8 text read. Only a
  file can be read.
\<close>

definition fs_readFile :: "filesystem \<Rightarrow> string \<Rightarrow> error + file_content" where
  "fs_readFile f p =
     (case f p of
        Some (File c) \<Rightarrow> Inr c
      | Some _ \<Rightarrow> Inl (Error ''EISDIR'')
      | None \<Rightarrow> Inl (Error ''ENOENT''))"

text \<open>
  Modelled from the spec: \<open>writeFile\<close> of \<open>utils/fs\<close>, the UTF-8 text write. The
  file is stored under the path, whatever was there.
\<close>

definition writeFile :: "string \<Rightarrow> file_content \<Rightarrow> world \<Rightarrow> world" where
  "writeFile p c w = w\<lparr>fs := (fs w)(p \<mapsto> File c), ops := ops w @ [WriteFile p c]\<rparr>"

text \<open>
  Modelled from the spec: \<open>copyFile\<close> of \<open>utils/fs\<close>, the byte-exact copy. It
  fails when the source cannot be read.
\<close>

definition copyFile :: "string \<Rightarrow> string \<Rightarrow> world \<Rightarrow> error + world" where
  "copyFile from to w =
     (case fs_readFile (fs w) from of
        Inl e \<Rightarrow> Inl e
      | Inr c \<Rightarrow> Inr (w\<lparr>fs := (fs w)(to \<mapsto> File c), ops := ops w @ [CopyFile from to]\<rparr>))"

text \<open>
  Modelled from the spec: \<open>rmdir\<close> of \<open>utils/fs\<close> with \<open>recursive: true\<close>, the
  recursive directory removal. The directory and every path within it are gone
  afterwards.
\<close>

definition rmdir :: "string \<Rightarrow> string \<Rightarrow> world \<Rightarrow> world" where
  "rmdir cwd dir w =
     w\<lparr>fs := (\<lambda>p. if within cwd dir p then None else fs w p), ops := ops w @ [Rmdir dir]\<rparr>"

text \<open>
  Modelled from the spec: the progress reporter (\<open>start\<close>, \<open>succeed\<close>, \<open>fail\<close>,
  \<open>info\<close>, \<open>warn\<close>) and \<open>utils/log\<close> (\<open>warn\<close>, \<open>debug\<close>). A report is
  recorded and changes nothing else; \<open>colors.yellow\<close> leaves the text as it is.
\<close>

definition report :: "log_event \<Rightarrow> world \<Rightarrow> world" where
  "report e w = w\<lparr>logs := logs w @ [e]\<rparr>"


section \<open>Copying assets\<close>

text \<open>
  A procedure of the source that returns nothing gives the error it threw, if any, and
  the state it left behind.
\<close>

type_synonym outcome = "error option \<times> world"

definition globsForceIgnored :: "NgPackage \<Rightarrow> string list" where
  "globsForceIgnored ngPackage =
     [''.gitkeep'', ''**/.DS_Store'', ''**/Thumbs.db'', dest ngPackage @ ''/**'']"

definition defaultAssets :: "EntryPointNode list \<Rightarrow> AssetEntry list" where
  "defaultAssets entryPoints =
     \<lparr>glob = ''LICENSE'', input = ''/'', output = ''/'', ignore = None, followSymlinks = None\<rparr> #
     map (\<lambda>n.
            let d = directory (entryDestinationFiles (entryPoint n));
                subpath = (if d \<noteq> [] then d else ''/'')
            in \<lparr>glob = ''README.md'', input = subpath, output = subpath,
                ignore = None, followSymlinks = None\<rparr>)
         entryPoints"

text \<open>The probe of a bare string: \<open>stat\<close>, with any failure caught as "neither".\<close>

definition probe :: "filesystem \<Rightarrow> string \<Rightarrow> bool \<times> bool" where
  "probe f p =
     (case fs_stat f p of
        Inr stats \<Rightarrow> (isDirectory stats, isFile stats)
      | Inl _ \<Rightarrow> (False, False))"

text \<open>Lines 127 to 142 of \<open>copyAssets\<close>: the entry of one declaration.\<close>

definition resolveAssetPattern :: "filesystem \<Rightarrow> NgPackage \<Rightarrow> AssetPattern \<Rightarrow> AssetEntry" where
  "resolveAssetPattern f ngPackage pattern =
     (case pattern of
        AssetObject entry \<Rightarrow> entry
      | AssetString assetPath \<Rightarrow>
          (case probe f (path_join (src ngPackage) assetPath) of
             (isDir, isFile') \<Rightarrow>
               if isDir then
                 \<lparr>glob = ''**/*'', input = assetPath, output = assetPath,
                  ignore = None, followSymlinks = None\<rparr>
               else if isFile' then
                 \<lparr>glob = path_basename assetPath, input = path_dirname assetPath,
                  output = path_dirname assetPath, ignore = None, followSymlinks = None\<rparr>
               else
                 \<lparr>glob = assetPath, input = ''/'', output = ''/'',
                  ignore = None, followSymlinks = None\<rparr>))"

text \<open>Lines 144 and 145: the entry joined against the package's roots.\<close>

definition rootAsset :: "NgPackage \<Rightarrow> AssetEntry \<Rightarrow> AssetEntry" where
  "rootAsset ngPackage asset =
     asset\<lparr>input := path_join (src ngPackage) (input asset),
           output := path_join (dest ngPackage) (output asset)\<rparr>"



text \<open>Lines 147 to 153: the two containment checks.\<close>

definition checkAsset :: "string \<Rightarrow> NgPackage \<Rightarrow> AssetEntry \<Rightarrow> error option" where
  "checkAsset cwd ngPackage asset =
     (if isAncestorPath cwd (input asset) (src ngPackage) then
        Some (Error ''Cannot read assets from a location outside of the project root.'')
      else if isAncestorPath cwd (output asset) (dest ngPackage) then
        Some (Error ''Cannot write assets to a location outside of the output path.'')
      else None)"

text \<open>The first loop: every declaration is resolved and checked before any file is read.\<close>

fun resolveAssets ::
  "string \<Rightarrow> filesystem \<Rightarrow> NgPackage \<Rightarrow> AssetPattern list \<Rightarrow> AssetEntry list \<Rightarrow> error + AssetEntry list"
where
  "resolveAssets cwd f ngPackage [] resolved = Inr resolved"
| "resolveAssets cwd f ngPackage (pattern # rest) resolved =
     (let asset = rootAsset ngPackage (resolveAssetPattern f ngPackage pattern)
      in case checkAsset cwd ngPackage asset of
           Some e \<Rightarrow> Inl e
         | None \<Rightarrow> resolveAssets cwd f ngPackage rest (resolved @ [asset]))"

text \<open>
  Modelled from the spec: \<open>graph.get\<close>, the exact lookup of a node by its URI among
  all nodes of the graph.
\<close>

definition graphHas :: "BuildGraph \<Rightarrow> string \<Rightarrow> bool" where
  "graphHas g uri =
     (uri \<in> set (fileNodes g) \<or> uri \<in> set (map url (entryPointNodes g)) \<or>
      (case packageNode g of None \<Rightarrow> False | Some p \<Rightarrow> packageUrl p = uri))"

text \<open>
  Modelled from the spec: \<open>Node.dependsOn\<close> records the directed edge from the
  dependent to its dependency, once.
\<close>

definition dependsOn :: "string \<Rightarrow> string \<Rightarrow> BuildGraph \<Rightarrow> BuildGraph" where
  "dependsOn dependent dependency g =
     (if (dependent, dependency) \<in> set (edges g) then g
      else g\<lparr>edges := edges g @ [(dependent, dependency)]\<rparr>)"

text \<open>The body of the inner loop, lines 167 to 176.\<close>

definition copyAssetFile ::
  "externals \<Rightarrow> EntryPointNode \<Rightarrow> AssetEntry \<Rightarrow> string \<Rightarrow> world \<Rightarrow> outcome"
where
  "copyAssetFile ext entryPointNode asset filePath w =
     (let fileSrcFullPath = path_join (input asset) filePath;
          fileDestFullPath = path_join (output asset) filePath;
          nodeUri = fileUrl ext (ensureUnixPath ext fileSrcFullPath);
          g1 = (if graphHas (graph w) nodeUri then graph w
                else (graph w)\<lparr>fileNodes := fileNodes (graph w) @ [nodeUri]\<rparr>);
          w1 = w\<lparr>graph := dependsOn (url entryPointNode) nodeUri g1\<rparr>
      in case copyFile fileSrcFullPath fileDestFullPath w1 of
           Inl e \<Rightarrow> (Some e, w1)
         | Inr w2 \<Rightarrow> (None, w2))"

fun copyAssetFiles ::
  "externals \<Rightarrow> EntryPointNode \<Rightarrow> AssetEntry \<Rightarrow> string list \<Rightarrow> world \<Rightarrow> outcome"
where
  "copyAssetFiles ext entryPointNode asset [] w = (None, w)"
| "copyAssetFiles ext entryPointNode asset (filePath # rest) w =
     (case copyAssetFile ext entryPointNode asset filePath w of
        (Some e, w1) \<Rightarrow> (Some e, w1)
      | (None, w1) \<Rightarrow> copyAssetFiles ext entryPointNode asset rest w1)"

text \<open>The second loop, lines 158 to 178.\<close>

fun copyResolvedAssets ::
  "externals \<Rightarrow> EntryPointNode \<Rightarrow> NgPackage \<Rightarrow> AssetEntry list \<Rightarrow> world \<Rightarrow> outcome"
where
  "copyResolvedAssets ext entryPointNode ngPackage [] w = (None, w)"
| "copyResolvedAssets ext entryPointNode ngPackage (asset # rest) w =
     (let filePaths =
            globFiles ext (fs w) (glob asset)
              \<lparr>globCwd = input asset,
               globIgnore =
                 (case ignore asset of None \<Rightarrow> [] | Some i \<Rightarrow> i) @ globsForceIgnored ngPackage,
               dot = True, onlyFiles = True,
               followSymbolicLinks = followSymlinks asset\<rparr>
      in case copyAssetFiles ext entryPointNode asset filePaths w of
           (Some e, w1) \<Rightarrow> (Some e, w1)
         | (None, w1) \<Rightarrow> copyResolvedAssets ext entryPointNode ngPackage rest w1)"

definition assetDeclarations :: "NgPackage \<Rightarrow> EntryPointNode list \<Rightarrow> AssetPattern list" where
  "assetDeclarations ngPackage entryPoints =
     assets ngPackage @ map AssetObject (defaultAssets entryPoints)"

definition copyAssets ::
  "externals \<Rightarrow> EntryPointNode \<Rightarrow> PackageNode \<Rightarrow> EntryPointNode list \<Rightarrow> world \<Rightarrow> outcome"
where
  "copyAssets ext entryPointNode ngPackageNode entryPoints w =
     (let ngPackage = packageData ngPackageNode
      in case resolveAssets (processCwd ext) (fs w) ngPackage
                (assetDeclarations ngPackage entryPoints) [] of
           Inl e \<Rightarrow> (Some e, w)
         | Inr resolved \<Rightarrow> copyResolvedAssets ext entryPointNode ngPackage resolved w)"

section \<open>The export map\<close>

definition quoted :: "string \<Rightarrow> string" where
  "quoted s = [CHR 0x22] @ s @ [CHR 0x22]"

definition conflictWarning :: "string \<Rightarrow> string \<Rightarrow> string" where
  "conflictWarning subpath conditionName =
     ''Found a conflicting export condition for '' @ quoted subpath @ ''. The '' @
     quoted conditionName @ '' condition would be overridden by ng-packagr. Please unset it.''"

text \<open>
  The loop of \<open>insertMappingOrError\<close> over the conditions of \<open>mapping\<close>: a condition
  that the subpath already has is reported, and every condition is then assigned. An
  assignment to a key that is present keeps its place, a new key goes last.
\<close>

fun insertConditions ::
  "string \<Rightarrow> ConditionalExport \<Rightarrow> ConditionalExport \<Rightarrow> log_event list \<Rightarrow>
   ConditionalExport \<times> log_event list"
where
  "insertConditions subpath [] subpathExport l = (subpathExport, l)"
| "insertConditions subpath ((conditionName, v) # rest) subpathExport l =
     insertConditions subpath rest
       (AList.update conditionName v subpathExport)
       (if map_of subpathExport conditionName \<noteq> None
        then l @ [LogWarn (conflictWarning subpath conditionName)] else l)"

definition insertMappingOrError ::
  "string \<Rightarrow> ConditionalExport \<Rightarrow> PackageExports \<times> log_event list \<Rightarrow>
   PackageExports \<times> log_event list"
where
  "insertMappingOrError subpath mapping st =
     (case st of (exports0, l) \<Rightarrow>
        let exports1 = (if map_of exports0 subpath = None
                        then exports0 @ [(subpath, [])] else exports0);
            subpathExport = (case map_of exports1 subpath of None \<Rightarrow> [] | Some c \<Rightarrow> c)
        in case insertConditions subpath mapping subpathExport l of
             (c, l') \<Rightarrow> (AList.update subpath c exports1, l'))"

definition relativeUnixFromDestPathDot :: "externals \<Rightarrow> string \<Rightarrow> string \<Rightarrow> string" where
  "relativeUnixFromDestPathDot ext destPath filePath =
     ''./'' @ ensureUnixPath ext (path_relative (processCwd ext) destPath filePath)"

definition entryPointMapping ::
  "externals \<Rightarrow> string \<Rightarrow> EntryPointNode \<Rightarrow> string \<times> ConditionalExport"
where
  "entryPointMapping ext destPath n =
     (let files = entryDestinationFiles (entryPoint n);
          subpath = (if isSecondaryEntryPoint (entryPoint n)
                     then ''./'' @ directory files else ''.'')
      in (subpath,
          [(''types'', relativeUnixFromDestPathDot ext destPath (declarationsBundled files)),
           (''default'', relativeUnixFromDestPathDot ext destPath (fesm2022 files))]))"

text \<open>
  \<open>generatePackageExports\<close>, with the warnings it logs. The declared export map is
  copied by value.
\<close>

definition generatePackageExports ::
  "externals \<Rightarrow> NgEntryPoint \<Rightarrow> EntryPointNode list \<Rightarrow> PackageExports \<times> log_event list"
where
  "generatePackageExports ext ngEntryPoint entryPoints =
     (let exports0 = (case exports (packageJson ngEntryPoint) of None \<Rightarrow> [] | Some e \<Rightarrow> e);
          st0 = insertMappingOrError ''./package.json'' [(''default'', ''./package.json'')]
                  (exports0, [])
      in foldl (\<lambda>st n.
                  case entryPointMapping ext (destinationPath ngEntryPoint) n of
                    (subpath, mapping) \<Rightarrow> insertMappingOrError subpath mapping st)
           st0 entryPoints)"

section \<open>Writing the manifest\<close>

record AdditionalProperties =
  addModule :: string
  addTypings :: string
  addExports :: PackageExports
  addSideEffects :: side_effects

text \<open>\<open>{ ...entryPoint.packageJson, ...additionalProperties }\<close>.\<close>

definition mergeProperties :: "manifest \<Rightarrow> AdditionalProperties \<Rightarrow> manifest" where
  "mergeProperties m a =
     m\<lparr>module := Some (addModule a), typings := Some (addTypings a),
       exports := Some (addExports a), sideEffects := Some (addSideEffects a)\<rparr>"

definition tslibMovedWarning :: string where
  "tslibMovedWarning =
     [CHR 0x27] @ ''tslib'' @ [CHR 0x27] @ '' is no longer recommended to be used as a '' @
     [CHR 0x27] @ ''peerDependencies'' @ [CHR 0x27] @ ''. Moving it to '' @
     [CHR 0x27] @ ''dependencies'' @ [CHR 0x27] @ ''.''"

text \<open>
  Lines 219 to 238. The tests on \<open>tslib\<close> are truthiness tests on the version string.
  The source deletes \<open>tslib\<close> from the \<open>peerDependencies\<close> object itself, which the
  entry point's own manifest shares; the model follows the manifest that is written.
\<close>

definition tslibStep :: "manifest \<Rightarrow> manifest \<Rightarrow> manifest \<times> log_event list" where
  "tslibStep angular pj =
     (if \<not> truthy (getProp (peerDependencies pj) ''tslib'') \<and>
         \<not> truthy (getProp (dependencies pj) ''tslib'') then
        (case js_or (getProp (peerDependencies angular) ''tslib'')
                    (getProp (dependencies angular) ''tslib'') of
           None \<Rightarrow> (pj, [])
         | Some tsLibVersion \<Rightarrow>
             if tsLibVersion \<noteq> [] then
               (pj\<lparr>dependencies :=
                     Some (AList.update ''tslib'' tsLibVersion (spread (dependencies pj)))\<rparr>, [])
             else (pj, []))
      else
        (case getProp (peerDependencies pj) ''tslib'' of
           None \<Rightarrow> (pj, [])
         | Some peerVersion \<Rightarrow>
             if peerVersion \<noteq> [] then
               (pj\<lparr>dependencies :=
                     Some (AList.update ''tslib'' peerVersion (spread (dependencies pj))),
                   peerDependencies :=
                     map_option (AList.delete ''tslib'') (peerDependencies pj)\<rparr>,
                [SpinnerWarn tslibMovedWarning])
             else (pj, [])))"

definition notRecommendedWarning :: "string \<Rightarrow> string \<Rightarrow> string" where
  "notRecommendedWarning property dep =
     ''Distributing npm packages with '' @ [CHR 0x27] @ property @ [CHR 0x27] @
     '' is not recommended. Please consider adding '' @ dep @ '' to '' @
     [CHR 0x27] @ ''peerDependencies'' @ [CHR 0x27] @ '' or remove it from '' @
     [CHR 0x27] @ property @ [CHR 0x27] @ ''.''"

definition notAllowedMessage :: "string \<Rightarrow> string" where
  "notAllowedMessage dep =
     ''Dependency '' @ dep @ '' must be explicitly allowed using the '' @
     quoted ''allowedNonPeerDependencies'' @ '' option.''"

definition allowedDebug :: "string \<Rightarrow> string \<Rightarrow> string" where
  "allowedDebug property dep =
     ''Dependency '' @ dep @ '' is allowed in '' @ [CHR 0x27] @ property @ [CHR 0x27]"

text \<open>The loop of \<open>checkNonPeerDependencies\<close> over the names of the section.\<close>

fun checkDependencyNames ::
  "string \<Rightarrow> (string \<Rightarrow> bool) list \<Rightarrow> string list \<Rightarrow> log_event list \<Rightarrow>
   error option \<times> log_event list"
where
  "checkDependencyNames property allowed [] l = (None, l)"
| "checkDependencyNames property allowed (dep # rest) l =
     (if list_ex (\<lambda>regex. regex dep) allowed then
        checkDependencyNames property allowed rest (l @ [LogDebug (allowedDebug property dep)])
      else
        (Some (Error (notAllowedMessage dep)),
         l @ [SpinnerWarn (notRecommendedWarning property dep)]))"

text \<open>
  \<open>checkNonPeerDependencies\<close>, called on the \<open>dependencies\<close> of the manifest: nothing
  to check when the section is absent.
\<close>

definition checkNonPeerDependencies ::
  "(string \<times> string) list option \<Rightarrow> string \<Rightarrow> (string \<Rightarrow> bool) list \<Rightarrow>
   error option \<times> log_event list"
where
  "checkNonPeerDependencies section property allowed =
     (case section of
        None \<Rightarrow> (None, [])
      | Some deps \<Rightarrow> checkDependencyNames property allowed (map fst deps) [])"

text \<open>\<open>allowedNonPeerDependencies.map(value => new RegExp(value))\<close>.\<close>

fun compileAllowed ::
  "(string \<Rightarrow> (string \<Rightarrow> bool) option) \<Rightarrow> string list \<Rightarrow> error + (string \<Rightarrow> bool) list"
where
  "compileAllowed mk [] = Inr []"
| "compileAllowed mk (v # vs) =
     (case mk v of
        None \<Rightarrow> Inl SyntaxError
      | Some r \<Rightarrow> (case compileAllowed mk vs of Inl e \<Rightarrow> Inl e | Inr rs \<Rightarrow> Inr (r # rs)))"

text \<open>Lines 251 to 262: the scripts section is removed unless the package keeps it.\<close>

definition scriptsStep :: "NgPackage \<Rightarrow> manifest \<Rightarrow> manifest \<times> log_event list" where
  "scriptsStep pkg pj =
     (case scripts pj of
        None \<Rightarrow> (pj, [])
      | Some _ \<Rightarrow>
          if \<not> keepLifecycleScripts pkg then
            (pj\<lparr>scripts := None\<rparr>,
             [SpinnerInfo (''Removing scripts section in package.json as it'' @ [CHR 0x27] @
                ''s considered a potential security vulnerability.'')])
          else
            (pj,
             [SpinnerWarn (''You enabled keepLifecycleScripts explicitly. '' @
                ''The scripts section in package.json will be published to npm.'')]))"

text \<open>
  The script of lines 267 to 271; the two \<open>\\n\<close> of the source are a backslash and
  the letter n in the script's text.
\<close>

definition prepublishOnlyGuard :: string where
  "prepublishOnlyGuard =
     ''node --eval '' @ [CHR 0x22] @ ''console.error('' @ [CHR 0x27] @
     ''ERROR: Trying to publish a package that has been compiled in full compilation mode. This is not allowed.'' @
     [CHR 0x5C, CHR ''n''] @
     ''Please delete and rebuild the package with partial compilation mode, before attempting to publish.'' @
     [CHR 0x5C, CHR ''n''] @
     [CHR 0x27] @ '')'' @ [CHR 0x22] @ '' '' @
     ''&& exit 1''"

text \<open>Lines 264 to 272.\<close>

definition guardStep :: "CompilationMode \<Rightarrow> manifest \<Rightarrow> manifest" where
  "guardStep mode pj =
     (if mode \<noteq> Partial then
        pj\<lparr>scripts := Some (AList.update ''prepublishOnly'' prepublishOnlyGuard (spread (scripts pj)))\<rparr>
      else pj)"

definition packageJsonPropertiesToDelete :: "string list" where
  "packageJsonPropertiesToDelete =
     [''stylelint'', ''prettier'', ''browserslist'', ''devDependencies'', ''jest'',
      ''workspaces'', ''husky'']"

fun deleteProperties :: "string list \<Rightarrow> manifest \<Rightarrow> log_event list \<Rightarrow> manifest \<times> log_event list" where
  "deleteProperties [] pj l = (pj, l)"
| "deleteProperties (p # ps) pj l =
     (if map_of (other pj) p \<noteq> None then
        deleteProperties ps (pj\<lparr>other := AList.delete p (other pj)\<rparr>)
          (l @ [SpinnerInfo (''Removing '' @ p @ '' section in package.json.'')])
      else deleteProperties ps pj l)"

text \<open>Lines 276 to 293.\<close>

definition stripStep :: "manifest \<Rightarrow> manifest \<times> log_event list" where
  "stripStep pj =
     deleteProperties packageJsonPropertiesToDelete
       (pj\<lparr>other := AList.delete ''ngPackage'' (other pj)\<rparr>) []"

text \<open>Several reports, in order.\<close>

definition reportAll :: "log_event list \<Rightarrow> world \<Rightarrow> world" where
  "reportAll es w = w\<lparr>logs := logs w @ es\<rparr>"

text \<open>
  Lines 207 to 238: the declared manifest with the computed properties, the watch
  version and the \<open>tslib\<close> dependency. \<open>now\<close> is the value \<open>Date.now()\<close> gives
  when the watch version is generated.
\<close>

definition assembleManifest ::
  "externals \<Rightarrow> int \<Rightarrow> NgEntryPoint \<Rightarrow> AdditionalProperties \<Rightarrow> bool \<Rightarrow>
   manifest \<times> log_event list"
where
  "assembleManifest ext now entryPoint' additionalProperties isWatchMode =
     (let pj0 = mergeProperties (packageJson entryPoint') additionalProperties;
          pj1 = (if isWatchMode then pj0\<lparr>version := Some (generateWatchVersion now)\<rparr> else pj0)
      in tslibStep (angularCompilerPackageJson ext) pj1)"

text \<open>
  \<open>writePackageJson\<close>. The allow-list is compiled before the \<open>try\<close>, so a pattern that
  is no regular expression throws without any clean-up; a dependency that is not allowed
  throws after the destination directory is removed.
\<close>

definition writePackageJson ::
  "externals \<Rightarrow> int \<Rightarrow> NgEntryPoint \<Rightarrow> NgPackage \<Rightarrow> AdditionalProperties \<Rightarrow> bool \<Rightarrow>
   CompilationMode \<Rightarrow> world \<Rightarrow> outcome"
where
  "writePackageJson ext now entryPoint' pkg additionalProperties isWatchMode mode w =
     (let w0 = report (LogDebug ''Writing package.json'') w
      in case assembleManifest ext now entryPoint' additionalProperties isWatchMode of
           (pj2, l2) \<Rightarrow>
             let w2 = reportAll l2 w0
             in case compileAllowed (newRegExp ext) (allowedNonPeerDependencies pkg) of
                  Inl e \<Rightarrow> (Some e, w2)
                | Inr allowedList \<Rightarrow>
                    (case checkNonPeerDependencies (dependencies pj2) ''dependencies'' allowedList of
                       (Some e, l3) \<Rightarrow>
                         (Some e,
                          rmdir (processCwd ext) (destinationPath entryPoint') (reportAll l3 w2))
                     | (None, l3) \<Rightarrow>
                         (case scriptsStep pkg pj2 of
                            (pj4, l4) \<Rightarrow>
                              (case stripStep (guardStep mode pj4) of
                                 (pj6, l6) \<Rightarrow>
                                   (None,
                                    writeFile
                                      (path_join (destinationPath entryPoint') ''package.json'')
                                      (Json (pj6\<lparr>name := Some (moduleId entryPoint')\<rparr>))
                                      (reportAll (l3 @ l4 @ l6) w2))))))"

section \<open>The transform\<close>








section \<open>The worker pool\<close>

datatype AtomicsMode = AtomicsSync | AtomicsAsync | AtomicsDisabled

datatype EnvSpecifier = ShareEnv | EnvObject "(string \<times> string) list"

text \<open>The options of the pool; an option the caller does not give is \<open>None\<close>.\<close>

record WorkerPoolOptions =
  minThreads :: "nat option"
  idleTimeout :: "nat option"
  atomics :: "AtomicsMode option"
  recordTiming :: "bool option"
  env :: "EnvSpecifier option"

text \<open>
  What the constructor reads from the process: \<open>process.versions.webcontainer\<close>,
  \<open>process.env\<close>, and \<open>getCompileCacheDir\<close>, which is missing before Node 22.8
  (\<open>None\<close>) and otherwise returns a directory or \<open>undefined\<close>.
\<close>

record host =
  webcontainer :: "string option"
  processEnv :: "(string \<times> string) list"
  getCompileCacheDir :: "string option option"

definition orDefault :: "'a option \<Rightarrow> 'a \<Rightarrow> 'a option" where
  "orDefault given d = (case given of None \<Rightarrow> Some d | Some v \<Rightarrow> Some v)"

text \<open>The defaults of lines 36 to 44, each overridden by the caller's option.\<close>

definition piscinaDefaults :: "host \<Rightarrow> WorkerPoolOptions \<Rightarrow> WorkerPoolOptions" where
  "piscinaDefaults h options =
     \<lparr>minThreads = orDefault (minThreads options) 1,
      idleTimeout = orDefault (idleTimeout options) 1000,
      atomics = orDefault (atomics options)
                  (if truthy (webcontainer h) then AtomicsDisabled else AtomicsSync),
      recordTiming = orDefault (recordTiming options) False,
      env = env options\<rparr>"

definition compileCacheDirectory :: "host \<Rightarrow> string option" where
  "compileCacheDirectory h =
     (if truthy (map_of (processEnv h) ''RUNFILES'') then None
      else (case getCompileCacheDir h of None \<Rightarrow> None | Some d \<Rightarrow> d))"

text \<open>\<open>WorkerPool\<close>: the options its constructor hands to Piscina.\<close>

definition WorkerPool :: "host \<Rightarrow> WorkerPoolOptions \<Rightarrow> WorkerPoolOptions" where
  "WorkerPool h options =
     (let piscinaOptions = piscinaDefaults h options
      in case compileCacheDirectory h of
           None \<Rightarrow> piscinaOptions
         | Some d \<Rightarrow>
             if d = [] then piscinaOptions
             else
               (case env piscinaOptions of
                  Some (EnvObject e) \<Rightarrow>
                    piscinaOptions\<lparr>env := Some (EnvObject (AList.update ''NODE_COMPILE_CACHE'' d e))\<rparr>
                | _ \<Rightarrow>
                    piscinaOptions\<lparr>env :=
                      Some (EnvObject (AList.update ''NODE_COMPILE_CACHE'' d (processEnv h)))\<rparr>))"

section \<open>Reading the result\<close>

text \<open>\<open>exports[subpath]?.[condition]\<close>: the value of a condition under a subpath.\<close>

definition exportCondition :: "PackageExports \<Rightarrow> string \<Rightarrow> string \<Rightarrow> string option" where
  "exportCondition e subpath condition =
     (case map_of e subpath of None \<Rightarrow> None | Some conds \<Rightarrow> map_of conds condition)"

text \<open>The manifest stored under a path, if the file there holds one.\<close>

definition manifestAt :: "world \<Rightarrow> string \<Rightarrow> manifest option" where
  "manifestAt w p = (case fs w p of Some (File (Json m)) \<Rightarrow> Some m | _ \<Rightarrow> None)"

section \<open>A small library, used to run the definitions\<close>

text \<open>
  The stand-ins for the outside world: the glob of a whole directory finds one file
  \<open>a.md\<close> and no other glob finds any, paths are already in Unix form, and a pattern of the allow-list matches the dependency of that very name.
\<close>

definition exampleExt :: externals where
  "exampleExt =
     \<lparr>processCwd = ''/work'',
      globFiles = (\<lambda>f pattern options. if pattern = ''**/*'' then [''a.md''] else []),
      ensureUnixPath = (\<lambda>p. p),
      fileUrl = (\<lambda>p. ''file://'' @ p),
      newRegExp = (\<lambda>v. Some (\<lambda>dep'. dep' = v)),
      angularCompilerPackageJson =
        emptyManifest\<lparr>dependencies := Some [(''tslib'', ''^2.3.0'')]\<rparr>\<rparr>"

definition examplePrimary :: NgEntryPoint where
  "examplePrimary =
     \<lparr>moduleId = ''@my/lib'',
      destinationPath = ''/work/dist/lib'',
      packageJson =
        emptyManifest\<lparr>name := Some ''@my/lib'', version := Some ''1.0.0'',
          exports := Some [(''.'', [(''default'', ''./custom.js'')])]\<rparr>,
      isSecondaryEntryPoint = False,
      entryDestinationFiles =
        \<lparr>directory = [], declarationsBundled = ''/work/dist/lib/index.d.ts'',
         fesm2022 = ''/work/dist/lib/fesm2022/my-lib.mjs''\<rparr>\<rparr>"

definition exampleSecondary :: NgEntryPoint where
  "exampleSecondary =
     \<lparr>moduleId = ''@my/lib/sub'',
      destinationPath = ''/work/dist/lib/sub'',
      packageJson = emptyManifest\<lparr>name := Some ''@my/lib/sub'', version := Some ''1.0.0''\<rparr>,
      isSecondaryEntryPoint = True,
      entryDestinationFiles =
        \<lparr>directory = ''sub'', declarationsBundled = ''/work/dist/lib/sub/index.d.ts'',
         fesm2022 = ''/work/dist/lib/fesm2022/my-lib-sub.mjs''\<rparr>\<rparr>"

definition exampleNode :: "NgEntryPoint \<Rightarrow> bool \<Rightarrow> EntryPointNode" where
  "exampleNode e active =
     \<lparr>url = ''ng://'' @ moduleId e, entryPoint = e,
      destinationFiles = entryDestinationFiles e,
      compilationMode = Partial, inProgress = active\<rparr>"

definition examplePackage :: "AssetPattern list \<Rightarrow> string list \<Rightarrow> NgPackage" where
  "examplePackage declared allowed =
     \<lparr>src = ''/work/lib'', dest = ''/work/dist/lib'', assets = declared,
      allowedNonPeerDependencies = allowed, keepLifecycleScripts = True,
      primary = examplePrimary\<rparr>"

definition exampleWorld :: "filesystem \<Rightarrow> EntryPointNode list \<Rightarrow> NgPackage \<Rightarrow> world" where
  "exampleWorld files nodes pkg =
     \<lparr>fs = files, ops = [], logs = [],
      graph = \<lparr>entryPointNodes = nodes,
               packageNode = Some \<lparr>packageUrl = ''ng://package'', packageData = pkg\<rparr>,
               fileNodes = [], edges = []\<rparr>\<rparr>"


text \<open>An asset declaration that reaches out of the source root.\<close>

definition escapingAsset :: AssetEntry where
  "escapingAsset =
     \<lparr>glob = ''*.md'', input = ''../secret'', output = ''/'',
      ignore = None, followSymlinks = None\<rparr>"

text \<open>
  One that stays within the source root and writes out of the destination root; and one
  that also writes out of the destination root, and reads from a directory of the source
  root whose name starts with two dots.
\<close>

definition outputEscapingAsset :: AssetEntry where
  "outputEscapingAsset =
     \<lparr>glob = ''*.md'', input = ''/'', output = ''../out'',
      ignore = None, followSymlinks = None\<rparr>"

definition dottedAsset :: AssetEntry where
  "dottedAsset =
     \<lparr>glob = ''*.md'', input = ''..docs'', output = ''../out'',
      ignore = None, followSymlinks = None\<rparr>"

text \<open>The package that declares the directory \<open>docs\<close> and then one more asset.\<close>

definition assetPackage :: "AssetEntry \<Rightarrow> PackageNode" where
  "assetPackage a =
     \<lparr>packageUrl = ''ng://package'',
      packageData = examplePackage [AssetString ''docs'', AssetObject a] []\<rparr>"

definition docsFiles :: filesystem where
  "docsFiles =
     [''/work/lib/docs'' \<mapsto> Directory, ''/work/lib/docs/a.md'' \<mapsto> File (Text ''a'')]"

definition docsWorld :: "AssetPattern list \<Rightarrow> world" where
  "docsWorld declared =
     exampleWorld docsFiles [exampleNode examplePrimary True] (examplePackage declared [])"

text \<open>A primary entry point that depends on \<open>left-pad\<close>, and a built destination.\<close>

definition leftPadEntry :: NgEntryPoint where
  "leftPadEntry =
     examplePrimary\<lparr>packageJson :=
       emptyManifest\<lparr>name := Some ''@my/lib'',
         dependencies := Some [(''left-pad'', ''^1.0.0'')]\<rparr>\<rparr>"

definition builtFiles :: filesystem where
  "builtFiles =
     [''/work/dist/lib'' \<mapsto> Directory,
      ''/work/dist/lib/fesm2022/my-lib.mjs'' \<mapsto> File (Text ''bundle''),
      ''/work/lib/index.ts'' \<mapsto> File (Text ''source'')]"

definition exampleProperties :: AdditionalProperties where
  "exampleProperties =
     \<lparr>addModule = ''fesm2022/my-lib.mjs'', addTypings = ''index.d.ts'',
      addExports = [], addSideEffects = SideEffectsFlag False\<rparr>"

definition builtWorld :: "NgEntryPoint \<Rightarrow> world" where
  "builtWorld e = exampleWorld builtFiles [exampleNode e True] (examplePackage [] [''tslib''])"

text \<open>Entry points whose manifests declare scripts, or \<open>tslib\<close> as a peer dependency.\<close>

definition scriptedEntry :: "(string \<times> string) list \<Rightarrow> NgEntryPoint" where
  "scriptedEntry declared =
     examplePrimary\<lparr>packageJson :=
       emptyManifest\<lparr>name := Some ''@my/lib'', scripts := Some declared\<rparr>\<rparr>"

definition peerEntry :: "(string \<times> string) list \<Rightarrow> NgEntryPoint" where
  "peerEntry peers =
     examplePrimary\<lparr>packageJson :=
       emptyManifest\<lparr>name := Some ''@my/lib'', peerDependencies := Some peers\<rparr>\<rparr>"

text \<open>
  One run of \<open>writePackageJson\<close> on the built destination, outside watch mode, with
  \<open>tslib\<close> on the allow-list and lifecycle scripts kept; and the manifest it wrote.
\<close>

definition runWrite :: "NgEntryPoint \<Rightarrow> CompilationMode \<Rightarrow> outcome" where
  "runWrite e mode =
     writePackageJson exampleExt 1700000000000 e (examplePackage [] [''tslib''])
       exampleProperties False mode (builtWorld e)"

definition writtenManifest :: "outcome \<Rightarrow> manifest option" where
  "writtenManifest r = manifestAt (snd r) ''/work/dist/lib/package.json''"

text \<open>
  A watch-mode rebuild of the secondary entry point: the primary manifest is already in
  the destination.
\<close>

definition primaryWritten :: manifest where
  "primaryWritten = emptyManifest\<lparr>name := Some ''@my/lib'', version := Some ''1.0.0''\<rparr>"

definition secondaryWorld :: world where
  "secondaryWorld =
     exampleWorld [''/work/dist/lib/package.json'' \<mapsto> File (Json primaryWritten)]
       [exampleNode examplePrimary False, exampleNode exampleSecondary True]
       (examplePackage [] [''tslib''])"

text \<open>The same rebuild, with a primary manifest that is no JSON.\<close>

definition unparsedWorld :: world where
  "unparsedWorld =
     secondaryWorld\<lparr>fs := [''/work/dist/lib/package.json'' \<mapsto> File (Text ''not json'')]\<rparr>"

text \<open>Hosts of the worker pool, and a caller that gives no option.\<close>

definition plainHost :: host where
  "plainHost =
     \<lparr>webcontainer = None, processEnv = [(''PATH'', ''/bin'')],
      getCompileCacheDir = Some (Some ''/tmp/cache'')\<rparr>"

definition noOptions :: WorkerPoolOptions where
  "noOptions =
     \<lparr>minThreads = None, idleTimeout = None, atomics = None, recordTiming = None, env = None\<rparr>"

text \<open>One run of \<open>writePackageJson\<close> in watch mode, at the time \<open>now\<close>.\<close>

definition runWatch :: "NgEntryPoint \<Rightarrow> int \<Rightarrow> outcome" where
  "runWatch e now =
     writePackageJson exampleExt now e (examplePackage [] [''tslib''])
       exampleProperties True Partial (builtWorld e)"

section \<open>Facts about decimal rendering\<close>

lemma digit_cases: "d < 10 \<Longrightarrow> d \<in> {0, 1, 2, 3, 4, 5, 6, 7, 8, 9 :: nat}"
  by auto

lemma digit_char_inj: "a < 10 \<Longrightarrow> b < 10 \<Longrightarrow> digit_char a = digit_char b \<Longrightarrow> a = b"
  by (drule digit_cases, drule digit_cases) (auto simp: digit_char_def)

lemma digit_char_mono: "a < b \<Longrightarrow> b < 10 \<Longrightarrow> digit_char a < digit_char b"
proof -
  assume ab: "a < b" and b: "b < 10"
  then have "a < 10" by simp
  from digit_cases [OF this] digit_cases [OF b] ab show ?thesis
    by (auto simp: digit_char_def less_char_def)
qed

lemma digit_char_not_minus: "d < 10 \<Longrightarrow> digit_char d \<noteq> CHR ''-''"
  by (drule digit_cases) (auto simp: digit_char_def)

lemma string_of_nat_nonempty: "string_of_nat n \<noteq> []"
  by (subst string_of_nat.simps) simp

lemma string_of_nat_hd_not_minus: "hd (string_of_nat n) \<noteq> CHR ''-''"
proof (induction n rule: string_of_nat.induct)
  case (1 n)
  show ?case
  proof (cases "n < 10")
    case True
    then show ?thesis by (subst string_of_nat.simps) (simp add: digit_char_not_minus)
  next
    case False
    with 1 show ?thesis
      by (subst string_of_nat.simps) (simp add: string_of_nat_nonempty)
  qed
qed

lemma string_of_nat_inj: "string_of_nat m = string_of_nat n \<Longrightarrow> m = n"
proof (induction m arbitrary: n rule: string_of_nat.induct)
  case (1 m)
  show ?case
  proof (cases "m < 10")
    case m: True
    show ?thesis
    proof (cases "n < 10")
      case True
      with m "1.prems" show ?thesis
        by (simp add: string_of_nat.simps [of m] string_of_nat.simps [of n] digit_char_inj)
    next
      case False
      with m "1.prems" string_of_nat_nonempty [of "n div 10"] show ?thesis
        by (simp add: string_of_nat.simps [of m] string_of_nat.simps [of n])
    qed
  next
    case m: False
    show ?thesis
    proof (cases "n < 10")
      case True
      with m "1.prems" string_of_nat_nonempty [of "m div 10"] show ?thesis
        by (simp add: string_of_nat.simps [of m] string_of_nat.simps [of n])
    next
      case False
      with m "1.prems" have e1: "string_of_nat (m div 10) = string_of_nat (n div 10)"
        and e2: "digit_char (m mod 10) = digit_char (n mod 10)"
        by (simp_all add: string_of_nat.simps [of m] string_of_nat.simps [of n])
      from "1.IH" [OF m e1] have "m div 10 = n div 10" .
      moreover from e2 have "m mod 10 = n mod 10" by (simp add: digit_char_inj)
      ultimately show ?thesis by (metis div_mult_mod_eq)
    qed
  qed
qed

lemma string_of_int_inj: "string_of_int i = string_of_int j \<Longrightarrow> i = j"
  using string_of_nat_hd_not_minus [of "nat i"] string_of_nat_hd_not_minus [of "nat j"]
    string_of_nat_nonempty [of "nat i"] string_of_nat_nonempty [of "nat j"]
  by (auto simp: string_of_int_def split: if_splits dest!: string_of_nat_inj)
     (metis list.sel(1))+

lemma string_of_nat_length_ge2: "\<not> n < 10 \<Longrightarrow> 2 \<le> length (string_of_nat n)"
  using string_of_nat_nonempty [of "n div 10"]
  by (subst string_of_nat.simps) (cases "string_of_nat (n div 10)"; simp)

lemma string_of_nat_length1: "n < 10 \<Longrightarrow> length (string_of_nat n) = 1"
  by (subst string_of_nat.simps) simp

lemma div10_eq: "(m::nat) < n \<Longrightarrow> \<not> m div 10 < n div 10 \<Longrightarrow> m div 10 = n div 10"
  by (meson div_le_mono le_less_linear less_imp_le_nat le_antisym not_less)

lemma mod10_less: "(m::nat) < n \<Longrightarrow> m div 10 = n div 10 \<Longrightarrow> m mod 10 < n mod 10"
  by (metis div_mult_mod_eq nat_add_left_cancel_less)

text \<open>Among numbers with equally many digits, the decimal strings are ordered as the numbers.\<close>

lemma string_of_nat_mono:
  "m < n \<Longrightarrow> length (string_of_nat m) = length (string_of_nat n) \<Longrightarrow>
   string_of_nat m < string_of_nat n"
proof (induction m arbitrary: n rule: string_of_nat.induct)
  case (1 m)
  show ?case
  proof (cases "n < 10")
    case True
    with "1.prems" show ?thesis
      by (simp add: string_of_nat.simps [of m] string_of_nat.simps [of n] digit_char_mono)
  next
    case n: False
    have m: "\<not> m < 10"
      using string_of_nat_length_ge2 [OF n] string_of_nat_length1 [of m] "1.prems"(2) by auto
    have len: "length (string_of_nat (m div 10)) = length (string_of_nat (n div 10))"
      using "1.prems"(2) m n
      by (simp add: string_of_nat.simps [of m] string_of_nat.simps [of n])
    show ?thesis
    proof (cases "m div 10 < n div 10")
      case True
      from "1.IH" [OF m True len]
      have "(string_of_nat (m div 10), string_of_nat (n div 10)) \<in> lexord {(u, v). u < v}"
        by (simp add: list_less_def)
      then have "(string_of_nat (m div 10) @ [digit_char (m mod 10)],
                  string_of_nat (n div 10) @ [digit_char (n mod 10)]) \<in> lexord {(u, v). u < v}"
        by (rule lexord_sufI) (simp add: len)
      then show ?thesis using m n
        by (simp add: string_of_nat.simps [of m] string_of_nat.simps [of n] list_less_def)
    next
      case False
      with "1.prems"(1) have d: "m div 10 = n div 10"
        by (rule div10_eq)
      with "1.prems"(1) have r: "m mod 10 < n mod 10"
        by (rule mod10_less)
      have "(string_of_nat (n div 10) @ digit_char (m mod 10) # [],
             string_of_nat (n div 10) @ digit_char (n mod 10) # []) \<in> lexord {(u, v). u < v}"
        by (rule lexord_append_left_rightI) (simp add: digit_char_mono r)
      then show ?thesis using m n d
        by (simp add: string_of_nat.simps [of m] string_of_nat.simps [of n] list_less_def)
    qed
  qed
qed

section \<open>Watch versions are distinct, and ordered while the digit count stays\<close>

text \<open>
  The timestamp is rendered in decimal with no padding, so the order of the version
  strings, compared character by character, breaks whenever the number of digits grows.
\<close>

lemma generateWatchVersion_not_monotonic:
  "(9999999999999 :: int) < 10000000000000 \<and>
   \<not> generateWatchVersion 9999999999999 < generateWatchVersion 10000000000000 \<and>
   generateWatchVersion 10000000000000 < generateWatchVersion 9999999999999"
  by (simp add: generateWatchVersion_def string_of_int_def string_of_nat.simps digit_char_def)

text \<open>
  Versions generated at different timestamps are different strings; and when the
  timestamps are not negative and have the same number of decimal digits (as all
  timestamps from 2001 to 2286 have), the later version is the greater string.
\<close>

lemma generateWatchVersion_distinct_and_ordered:
  "(t1 \<noteq> t2 \<longrightarrow> generateWatchVersion t1 \<noteq> generateWatchVersion t2) \<and>
   (0 \<le> t1 \<and> t1 < t2 \<and> length (string_of_int t1) = length (string_of_int t2) \<longrightarrow>
      generateWatchVersion t1 < generateWatchVersion t2)"
proof
  show "t1 \<noteq> t2 \<longrightarrow> generateWatchVersion t1 \<noteq> generateWatchVersion t2"
    by (auto simp: generateWatchVersion_def dest: string_of_int_inj)
next
  show "0 \<le> t1 \<and> t1 < t2 \<and> length (string_of_int t1) = length (string_of_int t2) \<longrightarrow>
      generateWatchVersion t1 < generateWatchVersion t2"
  proof
    assume a: "0 \<le> t1 \<and> t1 < t2 \<and> length (string_of_int t1) = length (string_of_int t2)"
    then have "nat t1 < nat t2"
      and "length (string_of_nat (nat t1)) = length (string_of_nat (nat t2))"
      by (auto simp: string_of_int_def)
    then have "string_of_nat (nat t1) < string_of_nat (nat t2)"
      by (rule string_of_nat_mono)
    then have "(''0.0.0-watch+'' @ string_of_nat (nat t1),
                ''0.0.0-watch+'' @ string_of_nat (nat t2)) \<in> lexord {(u, v). u < v}"
      unfolding list_less_def by (rule lexord_append_leftI)
    with a show "generateWatchVersion t1 < generateWatchVersion t2"
      by (simp add: generateWatchVersion_def string_of_int_def list_less_def)
  qed
qed

section \<open>Reading the state after a step\<close>

lemma report_simps:
  "fs (report e w) = fs w" "ops (report e w) = ops w" "graph (report e w) = graph w"
  "logs (report e w) = logs w @ [e]"
  "fs (reportAll l w) = fs w" "ops (reportAll l w) = ops w" "graph (reportAll l w) = graph w"
  "logs (reportAll l w) = logs w @ l"
  by (simp_all add: report_def reportAll_def)

lemma rmdir_simps:
  "fs (rmdir cwd dir w) = (\<lambda>p. if within cwd dir p then None else fs w p)"
  "ops (rmdir cwd dir w) = ops w @ [Rmdir dir]"
  "logs (rmdir cwd dir w) = logs w" "graph (rmdir cwd dir w) = graph w"
  by (simp_all add: rmdir_def)

lemma writeFile_simps:
  "fs (writeFile p c w) = (fs w)(p \<mapsto> File c)"
  "ops (writeFile p c w) = ops w @ [WriteFile p c]"
  "logs (writeFile p c w) = logs w" "graph (writeFile p c w) = graph w"
  by (simp_all add: writeFile_def)

text \<open>The definitions a concrete path computation unfolds.\<close>

lemmas path_defs =
  path_join_def path_normalize_def path_relative_def path_resolve_def isAbsolute_def
  normalizeString_def normalizeParts_def normalizeStep_def pathParts_def
  path_basename_def path_dirname_def within_def isAncestorPath_def startsWith_def

section \<open>Facts about paths\<close>

lemma splitSlash_nonempty: "splitSlash xs \<noteq> []"
  by (induction xs) (auto split: list.splits)

lemma splitSlash_append:
  "splitSlash (a @ CHR ''/'' # b) = splitSlash a @ splitSlash b"
proof (induction a)
  case Nil
  then show ?case by simp
next
  case (Cons c a)
  then show ?case
    using splitSlash_nonempty [of a]
    by (cases "splitSlash a") (auto split: list.splits)
qed

lemma splitSlash_no_slash: "CHR ''/'' \<notin> set s \<Longrightarrow> splitSlash s = [s]"
  by (induction s) auto

lemma splitSlash_joinSlash:
  "parts \<noteq> [] \<Longrightarrow> \<forall>p \<in> set parts. CHR ''/'' \<notin> set p \<Longrightarrow>
   splitSlash (joinSlash parts) = parts"
proof (induction parts rule: joinSlash.induct)
  case 1
  then show ?case by simp
next
  case (2 s)
  then show ?case by (simp add: splitSlash_no_slash)
next
  case (3 s t ss)
  then show ?case by (simp add: splitSlash_append splitSlash_no_slash)
qed

lemma splitSlash_parts_no_slash: "p \<in> set (splitSlash xs) \<Longrightarrow> CHR ''/'' \<notin> set p"
proof (induction xs arbitrary: p)
  case Nil
  then show ?case by simp
next
  case (Cons c cs)
  then show ?case
    using splitSlash_nonempty [of cs]
    by (cases "splitSlash cs") (auto split: if_splits)
qed

lemma normalizeStep_kept:
  "\<forall>p \<in> set res. kept p \<Longrightarrow> CHR ''/'' \<notin> set seg \<Longrightarrow>
   \<forall>p \<in> set (normalizeStep b res seg). kept p"
  by (auto simp: normalizeStep_def kept_def dest: in_set_butlastD)

lemma foldl_normalizeStep_kept:
  "\<forall>p \<in> set res. kept p \<Longrightarrow> \<forall>s \<in> set segs. CHR ''/'' \<notin> set s \<Longrightarrow>
   \<forall>p \<in> set (foldl (normalizeStep b) res segs). kept p"
proof (induction segs arbitrary: res)
  case Nil
  then show ?case by simp
next
  case (Cons s segs)
  from Cons.prems have "\<forall>p \<in> set (normalizeStep b res s). kept p"
    by (intro normalizeStep_kept) auto
  with Cons show ?case by simp
qed

lemma normalizeStep_no_dots:
  "''..'' \<notin> set res \<Longrightarrow> ''..'' \<notin> set (normalizeStep False res seg)"
  by (auto simp: normalizeStep_def dest: in_set_butlastD)

lemma foldl_normalizeStep_no_dots:
  "''..'' \<notin> set res \<Longrightarrow> ''..'' \<notin> set (foldl (normalizeStep False) res segs)"
  by (induction segs arbitrary: res) (simp_all add: normalizeStep_no_dots)

lemma foldl_names:
  "\<forall>p \<in> set r. kept p \<and> p \<noteq> ''..'' \<Longrightarrow> foldl (normalizeStep b) acc r = acc @ r"
proof (induction r arbitrary: acc)
  case Nil
  then show ?case by simp
next
  case (Cons a r)
  then have "normalizeStep b acc a = acc @ [a]"
    by (simp add: normalizeStep_def kept_def)
  with Cons show ?case by simp
qed

lemma step_commute:
  assumes "\<forall>p \<in> set r. kept p"
  shows "foldl (normalizeStep False) acc (normalizeStep True r x) =
         normalizeStep False (foldl (normalizeStep False) acc r) x"
proof (cases "x = ''..'' \<and> r \<noteq> [] \<and> last r \<noteq> ''..''")
  case True
  then obtain r0 n where r: "r = r0 @ [n]" and n: "n \<noteq> ''..''"
    by (metis append_butlast_last_id last_snoc)
  with assms have k: "kept n" by simp
  then have "normalizeStep False (foldl (normalizeStep False) acc r0) n =
      foldl (normalizeStep False) acc r0 @ [n]"
    using n by (simp add: normalizeStep_def kept_def)
  then show ?thesis using True r n
    by (simp add: normalizeStep_def)
next
  case False
  then show ?thesis
    by (auto simp: normalizeStep_def)
qed

lemma normalize_then_resolve:
  assumes "\<forall>p \<in> set r. kept p" and "\<forall>s \<in> set segs. CHR ''/'' \<notin> set s"
  shows "foldl (normalizeStep False) acc (foldl (normalizeStep True) r segs) =
         foldl (normalizeStep False) (foldl (normalizeStep False) acc r) segs"
  using assms
proof (induction segs arbitrary: r)
  case Nil
  then show ?case by simp
next
  case (Cons x segs)
  have k: "\<forall>p \<in> set (normalizeStep True r x). kept p"
    using Cons.prems by (intro normalizeStep_kept) auto
  from Cons.IH [OF k] Cons.prems(2)
  show ?case by (simp add: step_commute [OF Cons.prems(1)])
qed

lemma splitSlash_kept: "\<forall>s \<in> set (splitSlash xs). CHR ''/'' \<notin> set s"
  using splitSlash_parts_no_slash by blast

lemma kept_no_slash: "\<forall>p \<in> set parts. kept p \<Longrightarrow> \<forall>p \<in> set parts. CHR ''/'' \<notin> set p"
  by (simp add: kept_def)

lemma pathParts_root:
  assumes "\<forall>p \<in> set parts. kept p"
  shows "pathParts (CHR ''/'' # joinSlash parts) = parts"
proof (cases "parts = []")
  case True
  then show ?thesis by (simp add: pathParts_def)
next
  case False
  from splitSlash_joinSlash [OF False kept_no_slash [OF assms]]
  have "splitSlash (CHR ''/'' # joinSlash parts) = [] # parts" by simp
  moreover from assms have "filter (\<lambda>s. s \<noteq> []) parts = parts"
    by (auto simp: kept_def filter_id_conv)
  ultimately show ?thesis by (simp add: pathParts_def)
qed

lemma splitSlash_trailing: "splitSlash (x @ ''/'') = splitSlash x @ [[]]"
  using splitSlash_append [of x "[]"] by simp

lemma normalizeStep_empty: "normalizeStep b res [] = res"
  by (simp add: normalizeStep_def)

text \<open>The segments of a path resolved against an absolute working directory.\<close>

lemma pathParts_resolve:
  assumes "isAbsolute cwd"
  shows "pathParts (path_resolve cwd x) =
           (if isAbsolute x then foldl (normalizeStep False) [] (splitSlash x)
            else foldl (normalizeStep False)
                   (foldl (normalizeStep False) [] (splitSlash cwd)) (splitSlash x))"
proof -
  have c: "cwd \<noteq> []" using assms by (auto simp: isAbsolute_def)
  have k: "\<forall>p \<in> set (foldl (normalizeStep False) [] segs). kept p"
    if "\<forall>s \<in> set segs. CHR ''/'' \<notin> set s" for segs
    using that by (intro foldl_normalizeStep_kept) auto
  show ?thesis
  proof (cases "isAbsolute x")
    case True
    then have x: "x \<noteq> []" by (auto simp: isAbsolute_def)
    have "path_resolve cwd x =
        CHR ''/'' # joinSlash (foldl (normalizeStep False) [] (splitSlash x))"
      using True x
      by (simp add: path_resolve_def Let_def normalizeString_def normalizeParts_def
          splitSlash_trailing normalizeStep_empty)
    with True show ?thesis
      by (simp add: pathParts_root [OF k [OF splitSlash_kept]])
  next
    case False
    have s: "splitSlash (cwd @ CHR ''/'' # (if x = [] then [] else x @ ''/'')) =
        splitSlash cwd @ splitSlash x @ (if x = [] then [] else [[]])"
      by (simp add: splitSlash_append splitSlash_trailing)
    have "path_resolve cwd x =
        CHR ''/'' # joinSlash (foldl (normalizeStep False)
          (foldl (normalizeStep False) [] (splitSlash cwd)) (splitSlash x))"
      using False c assms s
      by (simp add: path_resolve_def Let_def normalizeString_def normalizeParts_def
          normalizeStep_empty)
    moreover have "\<forall>p \<in> set (foldl (normalizeStep False)
          (foldl (normalizeStep False) [] (splitSlash cwd)) (splitSlash x)). kept p"
      by (intro foldl_normalizeStep_kept k splitSlash_kept)
    ultimately show ?thesis using False
      by (simp add: pathParts_root)
  qed
qed

lemma joinSlash_not_absolute:
  "parts \<noteq> [] \<Longrightarrow> \<forall>p \<in> set parts. kept p \<Longrightarrow> \<not> isAbsolute (joinSlash parts)"
proof (induction parts rule: joinSlash.induct)
  case 1
  then show ?case by simp
next
  case (2 s)
  then show ?case by (cases s) (auto simp: isAbsolute_def kept_def)
next
  case (3 s t ss)
  then show ?case by (cases s) (auto simp: isAbsolute_def kept_def)
qed

lemma joinSlash_nonempty: "parts \<noteq> [] \<Longrightarrow> \<forall>p \<in> set parts. kept p \<Longrightarrow> joinSlash parts \<noteq> []"
  by (induction parts rule: joinSlash.induct) (auto simp: kept_def)

lemma joinSlash_snoc_nonempty: "f \<noteq> [] \<Longrightarrow> joinSlash (parts @ [f]) \<noteq> []"
proof (induction parts)
  case Nil
  then show ?case by simp
next
  case (Cons a parts)
  then show ?case by (cases parts) auto
qed

lemma last_joinSlash: "f \<noteq> [] \<Longrightarrow> last (joinSlash (parts @ [f])) = last f"
proof (induction parts)
  case Nil
  then show ?case by simp
next
  case (Cons a parts)
  then show ?case
    using joinSlash_snoc_nonempty [of f parts]
    by (cases parts) auto
qed

text \<open>
  A file name joined to a directory lies within the directory, wherever the working
  directory is.
\<close>

lemma within_join_file:
  assumes cwd: "isAbsolute cwd" and f: "kept f" "f \<noteq> ''..''"
  shows "within cwd d (path_join d f)"
proof -
  let ?sF = "normalizeStep False"
  let ?C = "foldl ?sF [] (splitSlash cwd)"
  have f_ne: "f \<noteq> []" and f_slash: "CHR ''/'' \<notin> set f"
    using f by (auto simp: kept_def)
  have f_last: "last f \<noteq> CHR ''/''"
    using f_slash last_in_set [OF f_ne] by metis
  have f_abs: "\<not> isAbsolute f"
    using f by (cases f) (auto simp: isAbsolute_def kept_def)
  have step_f: "normalizeStep b res f = res @ [f]" for b res
    using f by (simp add: normalizeStep_def kept_def)
  show ?thesis
  proof (cases "d = []")
    case True
    have "path_join d f = f"
      using True f_ne f_abs f_last f_slash
      by (simp add: path_join_def path_normalize_def normalizeString_def normalizeParts_def
          splitSlash_no_slash step_f)
    then show ?thesis
      using True f_abs
      by (simp add: within_def pathParts_resolve [OF cwd] isAbsolute_def
          splitSlash_no_slash [OF f_slash] step_f normalizeStep_empty)
  next
    case False
    let ?b = "\<not> isAbsolute d"
    let ?Pd = "foldl (normalizeStep ?b) [] (splitSlash d)"
    have kPd: "\<forall>p \<in> set ?Pd. kept p"
      by (intro foldl_normalizeStep_kept splitSlash_kept) simp
    have kPdf: "\<forall>p \<in> set (?Pd @ [f]). kept p"
      using kPd f by simp
    have abs_j: "isAbsolute (d @ CHR ''/'' # f) = isAbsolute d"
      using False by (cases d) (auto simp: isAbsolute_def)
    have ns: "normalizeString (d @ CHR ''/'' # f) ?b = joinSlash (?Pd @ [f])"
      by (simp add: normalizeString_def normalizeParts_def splitSlash_append
          splitSlash_no_slash [OF f_slash] step_f)
    have ne: "joinSlash (?Pd @ [f]) \<noteq> []"
      by (rule joinSlash_nonempty [OF _ kPdf]) simp
    have lst: "last (joinSlash (?Pd @ [f])) \<noteq> CHR ''/''"
      using last_joinSlash [OF f_ne] f_last by simp
    have j: "path_join d f =
        (if isAbsolute d then CHR ''/'' # joinSlash (?Pd @ [f]) else joinSlash (?Pd @ [f]))"
      using False f_ne f_last ne
      by (simp add: path_join_def path_normalize_def Let_def abs_j ns)
    have sp: "splitSlash (joinSlash (?Pd @ [f])) = ?Pd @ [f]"
      by (rule splitSlash_joinSlash [OF _ kept_no_slash [OF kPdf]]) simp
    show ?thesis
    proof (cases "isAbsolute d")
      case True
      then have nd: "''..'' \<notin> set ?Pd"
        by (simp add: foldl_normalizeStep_no_dots)
      with kPd have "\<forall>p \<in> set ?Pd. kept p \<and> p \<noteq> ''..''" by auto
      from foldl_names [OF this, of False "[]"]
      have "foldl ?sF [] ?Pd = ?Pd" by simp
      moreover have "isAbsolute (path_join d f)"
        using True j by (simp add: isAbsolute_def)
      ultimately have "pathParts (path_resolve cwd (path_join d f)) = ?Pd @ [f]"
        using True j sp
        by (simp add: pathParts_resolve [OF cwd] normalizeStep_empty step_f)
      moreover have "pathParts (path_resolve cwd d) = ?Pd"
        using True by (simp add: pathParts_resolve [OF cwd])
      ultimately show ?thesis by (simp add: within_def)
    next
      case nabs: False
      have na: "\<not> isAbsolute (path_join d f)"
        using nabs j joinSlash_not_absolute [OF _ kPdf] by simp
      have "foldl ?sF ?C ?Pd = foldl ?sF ?C (splitSlash d)"
        using normalize_then_resolve [of "[]" "splitSlash d" ?C] splitSlash_kept [of d] nabs
        by simp
      then have "pathParts (path_resolve cwd (path_join d f)) =
          foldl ?sF ?C (splitSlash d) @ [f]"
        using na nabs j sp
        by (simp add: pathParts_resolve [OF cwd] step_f)
      moreover have "pathParts (path_resolve cwd d) = foldl ?sF ?C (splitSlash d)"
        using nabs by (simp add: pathParts_resolve [OF cwd])
      ultimately show ?thesis by (simp add: within_def)
    qed
  qed
qed

lemma kept_package_json: "kept ''package.json''" "''package.json'' \<noteq> ''..''"
  by (simp_all add: kept_def)

section \<open>A path outside a root fails the containment check\<close>












lemmas example_defs =
  exampleExt_def examplePrimary_def exampleSecondary_def exampleNode_def examplePackage_def
  exampleWorld_def escapingAsset_def assetPackage_def outputEscapingAsset_def dottedAsset_def docsFiles_def docsWorld_def
  emptyManifest_def

text \<open>
  The example that follows, without the escaping declaration: the file found under
  \<open>docs\<close> is copied. So the empty list of operations there is the work of the
  containment check.
\<close>

lemma copyAssets_copies_when_contained:
  "ops (snd (copyAssets exampleExt (exampleNode examplePrimary True)
          \<lparr>packageUrl = ''ng://package'', packageData = examplePackage [AssetString ''docs''] []\<rparr>
          [exampleNode examplePrimary True] (docsWorld [AssetString ''docs''])))
   = [CopyFile ''/work/lib/docs/a.md'' ''/work/dist/lib/docs/a.md'']"
  by (simp add: copyAssets_def assetDeclarations_def defaultAssets_def resolveAssetPattern_def
      rootAsset_def checkAsset_def probe_def fs_stat_def copyAssetFile_def copyFile_def
      fs_readFile_def graphHas_def dependsOn_def globsForceIgnored_def example_defs path_defs
      Let_def)





section \<open>The dependency gate\<close>

lemma checkDependencyNames_first:
  "find (\<lambda>d. \<not> list_ex (\<lambda>regex. regex d) allowed) names = Some d \<Longrightarrow>
   \<exists>l'. checkDependencyNames property allowed names l =
     (Some (Error (notAllowedMessage d)), l')"
  by (induction names arbitrary: l) (auto split: if_splits)

lemma checkDependencyNames_none:
  "find (\<lambda>d. \<not> list_ex (\<lambda>regex. regex d) allowed) names = None \<Longrightarrow>
   \<exists>l'. checkDependencyNames property allowed names l = (None, l')"
  by (induction names arbitrary: l) (auto split: if_splits)

lemma keys_update:
  "map fst (AList.update k v al) = (if k \<in> fst ` set al then map fst al else map fst al @ [k])"
  by (induction al) auto

lemma find_append_Some: "find P xs = Some x \<Longrightarrow> find P (xs @ ys) = Some x"
  by (induction xs) (auto split: if_splits)

lemma find_keys_update:
  "find P (map fst al) = Some d \<Longrightarrow> find P (map fst (AList.update k v al)) = Some d"
  by (simp add: keys_update find_append_Some)

text \<open>Injecting or moving \<open>tslib\<close> leaves the first offending dependency the first.\<close>

lemma tslibStep_dependencies:
  assumes "dependencies pj = Some deps" and "find P (map fst deps) = Some d"
  shows "\<exists>deps'. dependencies (fst (tslibStep angular pj)) = Some deps' \<and>
           find P (map fst deps') = Some d"
  using assms
  by (auto simp: tslibStep_def spread_def find_keys_update split: option.splits)

lemma find_unmatched:
  "d \<in> set names \<Longrightarrow> \<not> P d \<Longrightarrow> \<exists>d'. find (\<lambda>x. \<not> P x) names = Some d'"
  by (induction names) auto

text \<open>
  Claim C3: the allow-list being a list of regular expressions (every pattern compiles, to
  the tests \<open>allowed\<close>), a manifest whose \<open>dependencies\<close> hold a name that none of them
  matches makes \<open>writePackageJson\<close> throw the error that names the first such
  dependency. The only file operation is the recursive removal of the entry point's
  destination directory: afterwards the files are those from before minus every path
  within that directory, the directory itself is absent, nothing was written, and there
  is no file where the manifest would have gone.
\<close>

theorem hygiene_gate_rollback:
  assumes regexps: "compileAllowed (newRegExp ext) (allowedNonPeerDependencies pkg) = Inr allowed"
    and declared: "dependencies (packageJson entryPoint') = Some deps"
    and unmatched: "d \<in> fst ` set deps" "\<not> list_ex (\<lambda>regex. regex d) allowed"
  shows "\<exists>d' w'.
           writePackageJson ext now entryPoint' pkg additionalProperties isWatchMode mode w =
             (Some (Error (notAllowedMessage d')), w') \<and>
           find (\<lambda>x. \<not> list_ex (\<lambda>regex. regex x) allowed) (map fst deps) = Some d' \<and>
           ops w' = ops w @ [Rmdir (destinationPath entryPoint')] \<and>
           fs w' = (\<lambda>p. if within (processCwd ext) (destinationPath entryPoint') p
                         then None else fs w p) \<and>
           fs w' (destinationPath entryPoint') = None \<and>
           (isAbsolute (processCwd ext) \<longrightarrow>
              fs w' (path_join (destinationPath entryPoint') ''package.json'') = None)"
proof -
  let ?P = "\<lambda>x. \<not> list_ex (\<lambda>regex. regex x) allowed"
  from unmatched have "d \<in> set (map fst deps)" by simp
  from find_unmatched [OF this, of "\<lambda>x. list_ex (\<lambda>regex. regex x) allowed"] unmatched(2)
  obtain d' where d': "find ?P (map fst deps) = Some d'" by blast
  let ?pj0 = "mergeProperties (packageJson entryPoint') additionalProperties"
  let ?pj1 = "if isWatchMode then ?pj0\<lparr>version := Some (generateWatchVersion now)\<rparr> else ?pj0"
  let ?a = "assembleManifest ext now entryPoint' additionalProperties isWatchMode"
  have "dependencies ?pj1 = Some deps"
    using declared by (simp add: mergeProperties_def)
  from tslibStep_dependencies [OF this d', of "angularCompilerPackageJson ext"]
  obtain deps' where deps': "dependencies (fst ?a) = Some deps'"
    and f: "find ?P (map fst deps') = Some d'"
    by (auto simp: assembleManifest_def Let_def)
  obtain pj2 l2 where t: "?a = (pj2, l2)"
    by (cases ?a)
  with deps' have pj2: "dependencies pj2 = Some deps'" by simp
  from checkDependencyNames_first [OF f, of "''dependencies''" "[]"]
  obtain l3 where c: "checkNonPeerDependencies (dependencies pj2) ''dependencies'' allowed =
      (Some (Error (notAllowedMessage d')), l3)"
    by (auto simp: checkNonPeerDependencies_def pj2)
  have w: "within (processCwd ext) (destinationPath entryPoint') (destinationPath entryPoint')"
    by (simp add: within_def)
  have m: "isAbsolute (processCwd ext) \<longrightarrow>
      within (processCwd ext) (destinationPath entryPoint')
        (path_join (destinationPath entryPoint') ''package.json'')"
    using within_join_file [OF _ kept_package_json] by blast
  show ?thesis
    using t c regexps d' w m
    by (simp add: writePackageJson_def Let_def rmdir_simps report_simps cong: if_cong)
qed

lemmas built_defs = leftPadEntry_def builtFiles_def exampleProperties_def builtWorld_def

theorem hygiene_gate_rollback_witness:
  "compileAllowed (newRegExp exampleExt) (allowedNonPeerDependencies (examplePackage [] [''tslib'']))
     = Inr [\<lambda>dep'. dep' = ''tslib''] \<and>
   dependencies (packageJson leftPadEntry) = Some [(''left-pad'', ''^1.0.0'')] \<and>
   ''left-pad'' \<in> fst ` set [(''left-pad'', ''^1.0.0'')] \<and>
   \<not> list_ex (\<lambda>regex. regex ''left-pad'') [\<lambda>dep'. dep' = ''tslib''] \<and>
   fst (writePackageJson exampleExt 1700000000000 leftPadEntry (examplePackage [] [''tslib''])
          exampleProperties False Partial (builtWorld leftPadEntry)) =
     Some (Error (notAllowedMessage ''left-pad'')) \<and>
   ops (snd (writePackageJson exampleExt 1700000000000 leftPadEntry (examplePackage [] [''tslib''])
          exampleProperties False Partial (builtWorld leftPadEntry))) =
     [Rmdir ''/work/dist/lib''] \<and>
   fs (snd (writePackageJson exampleExt 1700000000000 leftPadEntry (examplePackage [] [''tslib''])
          exampleProperties False Partial (builtWorld leftPadEntry))) ''/work/dist/lib'' = None \<and>
   fs (snd (writePackageJson exampleExt 1700000000000 leftPadEntry (examplePackage [] [''tslib''])
          exampleProperties False Partial (builtWorld leftPadEntry)))
      ''/work/dist/lib/fesm2022/my-lib.mjs'' = None \<and>
   fs (snd (writePackageJson exampleExt 1700000000000 leftPadEntry (examplePackage [] [''tslib''])
          exampleProperties False Partial (builtWorld leftPadEntry)))
      ''/work/lib/index.ts'' = Some (File (Text ''source'')) \<and>
   fs (snd (writePackageJson exampleExt 1700000000000 leftPadEntry (examplePackage [] [''tslib''])
          exampleProperties False Partial (builtWorld leftPadEntry)))
      ''/work/dist/lib/package.json'' = None"
proof -
  have a: "compileAllowed (newRegExp exampleExt)
      (allowedNonPeerDependencies (examplePackage [] [''tslib''])) = Inr [\<lambda>dep'. dep' = ''tslib'']"
    by (simp add: example_defs)
  have b: "dependencies (packageJson leftPadEntry) = Some [(''left-pad'', ''^1.0.0'')]"
    by (simp add: built_defs example_defs)
  have c: "''left-pad'' \<in> fst ` set [(''left-pad'', ''^1.0.0'')]" by simp
  have d: "\<not> list_ex (\<lambda>regex. regex ''left-pad'') [\<lambda>dep'. dep' = ''tslib'']" by simp
  from hygiene_gate_rollback [OF a b c d, of 1700000000000 exampleProperties False Partial
      "builtWorld leftPadEntry"]
  obtain d' w' where
    r: "writePackageJson exampleExt 1700000000000 leftPadEntry (examplePackage [] [''tslib''])
          exampleProperties False Partial (builtWorld leftPadEntry) =
        (Some (Error (notAllowedMessage d')), w')"
    and f: "find (\<lambda>x. \<not> list_ex (\<lambda>regex. regex x) [\<lambda>dep'. dep' = ''tslib''])
              (map fst [(''left-pad'', ''^1.0.0'')]) = Some d'"
    and o: "ops w' = ops (builtWorld leftPadEntry) @ [Rmdir (destinationPath leftPadEntry)]"
    and s: "fs w' = (\<lambda>p. if within (processCwd exampleExt) (destinationPath leftPadEntry) p
                         then None else fs (builtWorld leftPadEntry) p)"
    by blast
  from f have d': "d' = ''left-pad''" by simp
  have o': "ops w' = [Rmdir ''/work/dist/lib'']"
    using o by (simp add: built_defs example_defs)
  have s1: "fs w' ''/work/dist/lib'' = None"
    and s2: "fs w' ''/work/dist/lib/fesm2022/my-lib.mjs'' = None"
    and s3: "fs w' ''/work/lib/index.ts'' = Some (File (Text ''source''))"
    and s4: "fs w' ''/work/dist/lib/package.json'' = None"
    unfolding s by (simp_all add: built_defs example_defs path_defs)
  from a b c d r d' o' s1 s2 s3 s4 show ?thesis by simp
qed

section \<open>The export map: the last write wins\<close>

lemma insertConditions_map_of:
  "map_of (fst (insertConditions subpath mapping c l)) k =
     (case map_of (rev mapping) k of None \<Rightarrow> map_of c k | Some v \<Rightarrow> Some v)"
proof (induction mapping arbitrary: c l)
  case Nil
  then show ?case by simp
next
  case (Cons a mapping)
  obtain n v where a: "a = (n, v)" by (cases a)
  show ?case
    by (simp add: a Cons.IH update_conv map_add_def split: option.splits)
qed

lemma map_of_rev_distinct:
  "distinct (map fst xs) \<Longrightarrow> map_of (rev xs) k = map_of xs k"
proof (induction xs)
  case Nil
  then show ?case by simp
next
  case (Cons a xs)
  then have "map_of xs (fst a) = None"
    by (simp add: map_of_eq_None_iff)
  with Cons show ?case
    by (cases a) (auto simp: map_add_def split: option.splits)
qed

lemma insertConditions_logs_grow:
  "set l \<subseteq> set (snd (insertConditions subpath mapping c l))"
proof (induction mapping arbitrary: c l)
  case Nil
  then show ?case by simp
next
  case (Cons a mapping)
  obtain n v where a: "a = (n, v)" by (cases a)
  have "set l \<subseteq> set (if map_of c n \<noteq> None
      then l @ [LogWarn (conflictWarning subpath n)] else l)" by auto
  also have "\<dots> \<subseteq> set (snd (insertConditions subpath (a # mapping) c l))"
    unfolding a insertConditions.simps by (rule Cons.IH)
  finally show ?case .
qed

lemma insertConditions_warns:
  "k \<in> fst ` set mapping \<Longrightarrow> map_of c k \<noteq> None \<Longrightarrow>
   LogWarn (conflictWarning subpath k) \<in> set (snd (insertConditions subpath mapping c l))"
proof (induction mapping arbitrary: c l)
  case Nil
  then show ?case by simp
next
  case (Cons a mapping)
  obtain n v where a: "a = (n, v)" by (cases a)
  show ?case
  proof (cases "k = n")
    case True
    with Cons.prems(2)
    have "LogWarn (conflictWarning subpath k) \<in>
        set (if map_of c n \<noteq> None then l @ [LogWarn (conflictWarning subpath n)] else l)"
      by simp
    with insertConditions_logs_grow show ?thesis
      unfolding a insertConditions.simps by blast
  next
    case False
    with Cons.prems a have "k \<in> fst ` set mapping" by auto
    moreover from False Cons.prems(2) have "map_of (AList.update n v c) k \<noteq> None"
      by (simp add: update_conv)
    ultimately show ?thesis
      unfolding a insertConditions.simps by (rule Cons.IH)
  qed
qed

text \<open>
  Claim C1 says that a condition already present under a subpath keeps its value when the
  export map is generated. The code warns and then assigns all the same: the entry point
  whose manifest declares \<open>"." : { "default": "./custom.js" }\<close> ends with the generated
  bundle path under that condition, and one warning.
\<close>

theorem first_write_wins_counterexample:
  "exports (packageJson examplePrimary) = Some [(''.'', [(''default'', ''./custom.js'')])] \<and>
   exportCondition
     (fst (generatePackageExports exampleExt examplePrimary [exampleNode examplePrimary True]))
     ''.'' ''default'' = Some ''./fesm2022/my-lib.mjs'' \<and>
   snd (generatePackageExports exampleExt examplePrimary [exampleNode examplePrimary True]) =
     [LogWarn (conflictWarning ''.'' ''default'')]"
  by (simp add: generatePackageExports_def insertMappingOrError_def entryPointMapping_def
      relativeUnixFromDestPathDot_def exportCondition_def example_defs path_defs)

text \<open>
  Claim C1 as amended: \<open>insertMappingOrError\<close> gives every condition of the generated
  mapping its generated value under the subpath, whatever was there (the last write
  wins), and logs the warning that names the subpath and the condition for each condition
  that was already present; the conditions it does not generate and the other subpaths
  keep their values.
\<close>

theorem insertMappingOrError_last_write_wins:
  assumes "distinct (map fst mapping)"
    and "r = insertMappingOrError subpath mapping (exports0, l)"
  shows "((c, v) \<in> set mapping \<longrightarrow> exportCondition (fst r) subpath c = Some v) \<and>
         (c \<in> fst ` set mapping \<and> exportCondition exports0 subpath c \<noteq> None \<longrightarrow>
            LogWarn (conflictWarning subpath c) \<in> set (snd r)) \<and>
         (c \<notin> fst ` set mapping \<longrightarrow>
            exportCondition (fst r) subpath c = exportCondition exports0 subpath c) \<and>
         (s \<noteq> subpath \<longrightarrow> map_of (fst r) s = map_of exports0 s)"
proof -
  let ?e1 = "if map_of exports0 subpath = None then exports0 @ [(subpath, [])] else exports0"
  let ?se = "case map_of ?e1 subpath of None \<Rightarrow> [] | Some c \<Rightarrow> c"
  have r: "r = (AList.update subpath (fst (insertConditions subpath mapping ?se l)) ?e1,
                snd (insertConditions subpath mapping ?se l))"
    by (simp add: assms(2) insertMappingOrError_def Let_def split: prod.splits)
  have se: "map_of ?se k = exportCondition exports0 subpath k" for k
    by (auto simp: exportCondition_def split: option.splits)
  have "exportCondition (fst r) subpath k =
      map_of (fst (insertConditions subpath mapping ?se l)) k" for k
    unfolding r exportCondition_def by (simp add: update_conv)
  then have cond: "exportCondition (fst r) subpath k =
      (case map_of mapping k of None \<Rightarrow> exportCondition exports0 subpath k
       | Some v \<Rightarrow> Some v)" for k
    by (simp only: insertConditions_map_of map_of_rev_distinct [OF assms(1)] se)
  have 1: "(c, v) \<in> set mapping \<longrightarrow> exportCondition (fst r) subpath c = Some v"
    using assms(1) by (simp add: cond)
  have 2: "c \<in> fst ` set mapping \<and> exportCondition exports0 subpath c \<noteq> None \<longrightarrow>
      LogWarn (conflictWarning subpath c) \<in> set (snd r)"
    using insertConditions_warns [of c mapping ?se subpath l] se [of c] unfolding r by auto
  have 3: "c \<notin> fst ` set mapping \<longrightarrow>
      exportCondition (fst r) subpath c = exportCondition exports0 subpath c"
    by (auto simp: cond split: option.splits dest: map_of_SomeD intro: rev_image_eqI)
  have 4: "s \<noteq> subpath \<longrightarrow> map_of (fst r) s = map_of exports0 s"
    by (auto simp: r update_conv map_add_def split: option.splits)
  from 1 2 3 4 show ?thesis by blast
qed

theorem insertMappingOrError_last_write_wins_witness:
  "distinct (map fst [(''types'', ''./index.d.ts''), (''default'', ''./fesm2022/my-lib.mjs'')]) \<and>
   (''default'', ''./fesm2022/my-lib.mjs'') \<in>
     set [(''types'', ''./index.d.ts''), (''default'', ''./fesm2022/my-lib.mjs'')] \<and>
   exportCondition [(''.'', [(''default'', ''./custom.js''), (''import'', ''./esm.js'')])]
     ''.'' ''default'' = Some ''./custom.js'' \<and>
   exportCondition
     (fst (insertMappingOrError ''.''
        [(''types'', ''./index.d.ts''), (''default'', ''./fesm2022/my-lib.mjs'')]
        ([(''.'', [(''default'', ''./custom.js''), (''import'', ''./esm.js'')])], [])))
     ''.'' ''default'' = Some ''./fesm2022/my-lib.mjs'' \<and>
   LogWarn (conflictWarning ''.'' ''default'') \<in>
     set (snd (insertMappingOrError ''.''
        [(''types'', ''./index.d.ts''), (''default'', ''./fesm2022/my-lib.mjs'')]
        ([(''.'', [(''default'', ''./custom.js''), (''import'', ''./esm.js'')])], []))) \<and>
   exportCondition
     (fst (insertMappingOrError ''.''
        [(''types'', ''./index.d.ts''), (''default'', ''./fesm2022/my-lib.mjs'')]
        ([(''.'', [(''default'', ''./custom.js''), (''import'', ''./esm.js'')])], [])))
     ''.'' ''import'' = Some ''./esm.js''"
proof -
  let ?mapping = "[(''types'', ''./index.d.ts''), (''default'', ''./fesm2022/my-lib.mjs'')]"
  let ?declared = "[(''.'', [(''default'', ''./custom.js''), (''import'', ''./esm.js'')])]"
  have d: "distinct (map fst ?mapping)" by simp
  have e: "exportCondition ?declared ''.'' ''default'' = Some ''./custom.js''"
    and i: "exportCondition ?declared ''.'' ''import'' = Some ''./esm.js''"
    by (simp_all add: exportCondition_def)
  from insertMappingOrError_last_write_wins [OF d refl,
      of "''default''" "''./fesm2022/my-lib.mjs''" "''.''" ?declared "[]" "''./package.json''"]
    insertMappingOrError_last_write_wins [OF d refl,
      of "''import''" "''./esm.js''" "''.''" ?declared "[]" "''./package.json''"]
    d e i
  show ?thesis by simp
qed

section \<open>The manifest that is written\<close>

lemmas run_defs = scriptedEntry_def peerEntry_def runWrite_def writtenManifest_def

lemma deleteProperties_keeps:
  "scripts (fst (deleteProperties ps pj l)) = scripts pj"
  "dependencies (fst (deleteProperties ps pj l)) = dependencies pj"
  "peerDependencies (fst (deleteProperties ps pj l)) = peerDependencies pj"
  by (induction ps arbitrary: pj l) auto

lemma stripStep_keeps:
  "scripts (fst (stripStep pj)) = scripts pj"
  "dependencies (fst (stripStep pj)) = dependencies pj"
  "peerDependencies (fst (stripStep pj)) = peerDependencies pj"
  by (simp_all add: stripStep_def deleteProperties_keeps)

lemma guardStep_keeps:
  "dependencies (guardStep mode pj) = dependencies pj"
  "peerDependencies (guardStep mode pj) = peerDependencies pj"
  by (simp_all add: guardStep_def)

lemma scriptsStep_keeps:
  "dependencies (fst (scriptsStep pkg pj)) = dependencies pj"
  "peerDependencies (fst (scriptsStep pkg pj)) = peerDependencies pj"
  "scripts (fst (scriptsStep pkg pj)) = (if keepLifecycleScripts pkg then scripts pj else None)"
  by (auto simp: scriptsStep_def split: option.splits)

lemma tslibStep_scripts: "scripts (fst (tslibStep angular pj)) = scripts pj"
  by (auto simp: tslibStep_def split: option.splits)

lemma deleteProperties_version: "version (fst (deleteProperties ps pj l)) = version pj"
  by (induction ps arbitrary: pj l) auto

lemma steps_keep_version:
  "version (fst (stripStep pj)) = version pj"
  "version (guardStep mode pj) = version pj"
  "version (fst (scriptsStep pkg pj)) = version pj"
  "version (fst (tslibStep angular pj)) = version pj"
  by (auto simp: stripStep_def deleteProperties_version guardStep_def scriptsStep_def
      tslibStep_def split: option.splits)

text \<open>In watch mode the assembled manifest carries the watch version of the time.\<close>

lemma assembleManifest_version:
  "version (fst (assembleManifest ext now e a watch)) =
     (if watch then Some (generateWatchVersion now) else version (packageJson e))"
  by (simp add: assembleManifest_def Let_def steps_keep_version mergeProperties_def)

lemma assembleManifest_scripts:
  "scripts (fst (assembleManifest ext now e a watch)) = scripts (packageJson e)"
  by (simp add: assembleManifest_def Let_def tslibStep_scripts mergeProperties_def)

text \<open>
  When \<open>writePackageJson\<close> returns, its one file operation was the write of
  \<open>package.json\<close> in the destination, and the manifest written there has the
  dependencies and the version of the assembled manifest, and for scripts the declared
  ones after the scripts step and the guard step.
\<close>

lemma written_manifest:
  assumes "writePackageJson ext now e pkg a watch mode w = (None, w')"
  shows "\<exists>pj. ops w' = ops w @ [WriteFile (path_join (destinationPath e) ''package.json'') (Json pj)] \<and>
           manifestAt w' (path_join (destinationPath e) ''package.json'') = Some pj \<and>
           scripts pj = scripts (guardStep mode (fst (scriptsStep pkg (packageJson e)))) \<and>
           dependencies pj = dependencies (fst (assembleManifest ext now e a watch)) \<and>
           peerDependencies pj = peerDependencies (fst (assembleManifest ext now e a watch)) \<and>
           version pj = version (fst (assembleManifest ext now e a watch)) \<and>
           set (snd (assembleManifest ext now e a watch)) \<subseteq> set (logs w')"
proof -
  obtain pj2 l2 where t: "assembleManifest ext now e a watch = (pj2, l2)"
    by (cases "assembleManifest ext now e a watch")
  have s2: "scripts pj2 = scripts (packageJson e)"
    using assembleManifest_scripts [of ext now e a watch] t by simp
  obtain pj4 l4 where s4: "scriptsStep pkg pj2 = (pj4, l4)"
    by (cases "scriptsStep pkg pj2")
  obtain pj6 l6 where s6: "stripStep (guardStep mode pj4) = (pj6, l6)"
    by (cases "stripStep (guardStep mode pj4)")
  have k4: "dependencies pj4 = dependencies pj2" "peerDependencies pj4 = peerDependencies pj2"
    "scripts pj4 = (if keepLifecycleScripts pkg then scripts pj2 else None)"
    "version pj4 = version pj2"
    using scriptsStep_keeps [of pkg pj2] steps_keep_version(3) [of pkg pj2] s4 by simp_all
  have k6: "dependencies pj6 = dependencies pj4" "peerDependencies pj6 = peerDependencies pj4"
    "scripts pj6 = scripts (guardStep mode pj4)" "version pj6 = version pj4"
    using stripStep_keeps [of "guardStep mode pj4"] steps_keep_version(1) [of "guardStep mode pj4"]
      s6
    by (simp_all add: guardStep_keeps steps_keep_version(2))
  have g: "scripts (guardStep mode pj4) =
      scripts (guardStep mode (fst (scriptsStep pkg (packageJson e))))"
    by (simp add: guardStep_def k4 s2 scriptsStep_keeps)
  from assms t s4 s6
  have w': "w' = writeFile (path_join (destinationPath e) ''package.json'')
                  (Json (pj6\<lparr>name := Some (moduleId e)\<rparr>))
                  (reportAll
                     (snd (checkNonPeerDependencies (dependencies pj2) ''dependencies''
                        (projr (compileAllowed (newRegExp ext) (allowedNonPeerDependencies pkg))))
                      @ l4 @ l6)
                     (reportAll l2 (report (LogDebug ''Writing package.json'') w)))"
    by (auto simp: writePackageJson_def Let_def split: sum.splits prod.splits option.splits)
  show ?thesis
    unfolding w' t
    by (auto simp: manifestAt_def writeFile_simps report_simps k4 k6 g)
qed

text \<open>
  The writer returns whenever the patterns of the allow-list compile and every dependency
  of the assembled manifest matches one of them.
\<close>

lemma writePackageJson_succeeds:
  assumes "compileAllowed (newRegExp ext) (allowedNonPeerDependencies pkg) = Inr allowed"
    and "\<forall>d \<in> fst ` set (spread (dependencies (fst (assembleManifest ext now e a watch)))).
           list_ex (\<lambda>regex. regex d) allowed"
  shows "fst (writePackageJson ext now e pkg a watch mode w) = None"
proof -
  obtain pj2 l2 where t: "assembleManifest ext now e a watch = (pj2, l2)"
    by (cases "assembleManifest ext now e a watch")
  have "\<exists>l3. checkNonPeerDependencies (dependencies pj2) ''dependencies'' allowed = (None, l3)"
  proof (cases "dependencies pj2")
    case None
    then show ?thesis by (simp add: checkNonPeerDependencies_def)
  next
    case (Some deps)
    with assms(2) t
    have "find (\<lambda>d. \<not> list_ex (\<lambda>regex. regex d) allowed) (map fst deps) = None"
      by (auto simp: find_None_iff spread_def)
    from checkDependencyNames_none [OF this] Some show ?thesis
      by (simp add: checkNonPeerDependencies_def)
  qed
  then obtain l3 where
    "checkNonPeerDependencies (dependencies pj2) ''dependencies'' allowed = (None, l3)" ..
  with assms(1) t show ?thesis
    by (simp add: writePackageJson_def Let_def split: prod.splits)
qed

lemma outcome_of_fst: "fst r = None \<Longrightarrow> r = (None, snd r)"
  by (cases r) simp

lemma example_manifest_path: "path_join ''/work/dist/lib'' ''package.json'' = ''/work/dist/lib/package.json''"
  by (simp add: path_defs)

lemmas write_defs =
  writePackageJson_def assembleManifest_def mergeProperties_def tslibStep_def
  checkNonPeerDependencies_def scriptsStep_def guardStep_def stripStep_def
  packageJsonPropertiesToDelete_def truthy_def js_or_def getProp_def spread_def
  report_def reportAll_def writeFile_def manifestAt_def Let_def

text \<open>The runs used below succeed.\<close>

lemma runWrite_scripted: "fst (runWrite (scriptedEntry declared) mode) = None"
  by (simp add: run_defs built_defs example_defs write_defs)

lemma runWrite_primary: "fst (runWrite examplePrimary mode) = None"
  by (simp add: run_defs built_defs example_defs write_defs)

lemma runWrite_peer: "fst (runWrite (peerEntry [(''tslib'', v)]) mode) = None"
  by (simp add: run_defs built_defs example_defs write_defs)

section \<open>The publish guard\<close>

text \<open>
  Claim C6 says, for partial mode, that the written manifest holds no \<open>prepublishOnly\<close>
  guard script. In partial mode the writer adds none, but it does not take one away
  either: with lifecycle scripts kept, a manifest that declares the very text of the guard
  as its \<open>prepublishOnly\<close> script is written with it.
\<close>

theorem partial_mode_guard_counterexample:
  "fst (runWrite (scriptedEntry [(''prepublishOnly'', prepublishOnlyGuard)]) Partial) = None \<and>
   map_option (\<lambda>m. getProp (scripts m) ''prepublishOnly'')
     (writtenManifest (runWrite (scriptedEntry [(''prepublishOnly'', prepublishOnlyGuard)]) Partial))
     = Some (Some prepublishOnlyGuard)"
  by (simp add: run_defs built_defs example_defs write_defs path_defs)

text \<open>
  Claim C6 as amended: whenever \<open>writePackageJson\<close> writes the manifest, then in a
  compilation mode other than \<open>partial\<close> its \<open>scripts.prepublishOnly\<close> is the guard
  script, and in \<open>partial\<close> mode its scripts section is untouched by the guard: it is
  the declared section when the package keeps lifecycle scripts, and absent otherwise.
\<close>

theorem prepublishOnly_guard:
  assumes "writePackageJson ext now e pkg a watch mode w = (None, w')"
  shows "\<exists>pj. ops w' = ops w @ [WriteFile (path_join (destinationPath e) ''package.json'') (Json pj)] \<and>
           manifestAt w' (path_join (destinationPath e) ''package.json'') = Some pj \<and>
           (mode \<noteq> Partial \<longrightarrow>
              getProp (scripts pj) ''prepublishOnly'' = Some prepublishOnlyGuard) \<and>
           (mode = Partial \<longrightarrow>
              scripts pj = (if keepLifecycleScripts pkg then scripts (packageJson e) else None))"
proof -
  from written_manifest [OF assms] obtain pj where
    "ops w' = ops w @ [WriteFile (path_join (destinationPath e) ''package.json'') (Json pj)]"
    and "manifestAt w' (path_join (destinationPath e) ''package.json'') = Some pj"
    and "scripts pj = scripts (guardStep mode (fst (scriptsStep pkg (packageJson e))))"
    by blast
  then show ?thesis
    by (auto simp: guardStep_def scriptsStep_keeps getProp_def update_conv)
qed

theorem prepublishOnly_guard_witness:
  "fst (runWrite (scriptedEntry [(''build'', ''ng build'')]) Full) = None \<and>
   map_option (\<lambda>m. getProp (scripts m) ''prepublishOnly'')
     (writtenManifest (runWrite (scriptedEntry [(''build'', ''ng build'')]) Full))
     = Some (Some prepublishOnlyGuard) \<and>
   fst (runWrite (scriptedEntry [(''build'', ''ng build'')]) Partial) = None \<and>
   map_option scripts
     (writtenManifest (runWrite (scriptedEntry [(''build'', ''ng build'')]) Partial))
     = Some (Some [(''build'', ''ng build'')])"
proof -
  let ?e = "scriptedEntry [(''build'', ''ng build'')]"
  have f: "fst (runWrite ?e Full) = None" and p: "fst (runWrite ?e Partial) = None"
    by (rule runWrite_scripted)+
  have d: "destinationPath ?e = ''/work/dist/lib''"
    and k: "keepLifecycleScripts (examplePackage [] [''tslib''])"
    and s: "scripts (packageJson ?e) = Some [(''build'', ''ng build'')]"
    by (simp_all add: run_defs example_defs)
  from prepublishOnly_guard [OF outcome_of_fst [OF f, unfolded runWrite_def]]
  have 1: "map_option (\<lambda>m. getProp (scripts m) ''prepublishOnly'')
      (writtenManifest (runWrite ?e Full)) = Some (Some prepublishOnlyGuard)"
    by (auto simp: writtenManifest_def runWrite_def d example_manifest_path)
  from prepublishOnly_guard [OF outcome_of_fst [OF p, unfolded runWrite_def]]
  have 2: "map_option scripts (writtenManifest (runWrite ?e Partial)) =
      Some (Some [(''build'', ''ng build'')])"
    by (auto simp: writtenManifest_def runWrite_def d k s example_manifest_path)
  from f p 1 2 show ?thesis by simp
qed

text \<open>
  Claim C10: outside partial mode, with lifecycle scripts kept and a \<open>prepublishOnly\<close>
  script declared, the written manifest's \<open>scripts.prepublishOnly\<close> is the guard,
  whatever was declared; the other declared scripts stay.
\<close>

theorem guard_replaces_declared_script:
  assumes "writePackageJson ext now e pkg a watch mode w = (None, w')"
    and "mode \<noteq> Partial" and "keepLifecycleScripts pkg"
    and "getProp (scripts (packageJson e)) ''prepublishOnly'' = Some declared"
  shows "\<exists>pj. ops w' = ops w @ [WriteFile (path_join (destinationPath e) ''package.json'') (Json pj)] \<and>
           manifestAt w' (path_join (destinationPath e) ''package.json'') = Some pj \<and>
           getProp (scripts pj) ''prepublishOnly'' = Some prepublishOnlyGuard \<and>
           (\<forall>k. k \<noteq> ''prepublishOnly'' \<longrightarrow>
              getProp (scripts pj) k = getProp (scripts (packageJson e)) k)"
proof -
  from written_manifest [OF assms(1)] obtain pj where
    "ops w' = ops w @ [WriteFile (path_join (destinationPath e) ''package.json'') (Json pj)]"
    and "manifestAt w' (path_join (destinationPath e) ''package.json'') = Some pj"
    and "scripts pj = scripts (guardStep mode (fst (scriptsStep pkg (packageJson e))))"
    by blast
  with assms(2,3,4) show ?thesis
    by (auto simp: guardStep_def scriptsStep_keeps getProp_def spread_def update_conv
        split: option.splits)
qed

theorem guard_replaces_declared_script_witness:
  "fst (runWrite (scriptedEntry [(''prepublishOnly'', ''npm run build''), (''test'', ''jest'')])
          Full) = None \<and>
   Full \<noteq> Partial \<and>
   keepLifecycleScripts (examplePackage [] [''tslib'']) \<and>
   getProp (scripts (packageJson
       (scriptedEntry [(''prepublishOnly'', ''npm run build''), (''test'', ''jest'')])))
     ''prepublishOnly'' = Some ''npm run build'' \<and>
   map_option (\<lambda>m. getProp (scripts m) ''prepublishOnly'')
     (writtenManifest
        (runWrite (scriptedEntry [(''prepublishOnly'', ''npm run build''), (''test'', ''jest'')])
           Full))
     = Some (Some prepublishOnlyGuard) \<and>
   map_option (\<lambda>m. getProp (scripts m) ''test'')
     (writtenManifest
        (runWrite (scriptedEntry [(''prepublishOnly'', ''npm run build''), (''test'', ''jest'')])
           Full))
     = Some (Some ''jest'')"
proof -
  let ?e = "scriptedEntry [(''prepublishOnly'', ''npm run build''), (''test'', ''jest'')]"
  have f: "fst (runWrite ?e Full) = None"
    by (rule runWrite_scripted)
  have m: "Full \<noteq> Partial" by simp
  have d: "destinationPath ?e = ''/work/dist/lib''"
    and k: "keepLifecycleScripts (examplePackage [] [''tslib''])"
    and s: "getProp (scripts (packageJson ?e)) ''prepublishOnly'' = Some ''npm run build''"
    and t: "getProp (scripts (packageJson ?e)) ''test'' = Some ''jest''"
    by (simp_all add: run_defs example_defs getProp_def)
  from guard_replaces_declared_script [OF outcome_of_fst [OF f, unfolded runWrite_def] m k s]
  obtain pj where
    "manifestAt (snd (runWrite ?e Full)) ''/work/dist/lib/package.json'' = Some pj"
    and "getProp (scripts pj) ''prepublishOnly'' = Some prepublishOnlyGuard"
    and "getProp (scripts pj) ''test'' = Some ''jest''"
    by (auto simp: runWrite_def d t example_manifest_path)
  with f m k s show ?thesis by (simp add: writtenManifest_def)
qed

section \<open>The tslib dependency\<close>

text \<open>
  Claim C8 says that a manifest which declares \<open>tslib\<close> under \<open>peerDependencies\<close> has
  the entry moved to \<open>dependencies\<close>, with a warning. The tests of the code are
  truthiness tests on the version: a peer dependency on \<open>tslib\<close> declared with the empty
  version range (any version, for npm) is taken as not declared. It stays under
  \<open>peerDependencies\<close>, the compiler's version goes under \<open>dependencies\<close>, and no
  warning is given.
\<close>

theorem tslib_peer_not_moved_counterexample:
  "getProp (peerDependencies (packageJson (peerEntry [(''tslib'', [])]))) ''tslib'' = Some [] \<and>
   fst (runWrite (peerEntry [(''tslib'', [])]) Partial) = None \<and>
   map_option peerDependencies (writtenManifest (runWrite (peerEntry [(''tslib'', [])]) Partial))
     = Some (Some [(''tslib'', [])]) \<and>
   map_option dependencies (writtenManifest (runWrite (peerEntry [(''tslib'', [])]) Partial))
     = Some (Some [(''tslib'', ''^2.3.0'')]) \<and>
   SpinnerWarn tslibMovedWarning \<notin> set (logs (snd (runWrite (peerEntry [(''tslib'', [])]) Partial)))"
  by (simp add: run_defs built_defs example_defs write_defs path_defs)

text \<open>
  Claim C8 as amended: whenever \<open>writePackageJson\<close> writes the manifest, (1) if neither
  \<open>dependencies\<close> nor \<open>peerDependencies\<close> declares \<open>tslib\<close> and the manifest of the
  compiler declares a non-empty version for it (under its peer dependencies, or else
  under its dependencies), the written \<open>dependencies\<close> hold \<open>tslib\<close> at that
  version; (2) if \<open>peerDependencies\<close> declares \<open>tslib\<close> with a non-empty version, the
  written \<open>dependencies\<close> hold \<open>tslib\<close> at the declared version, the written
  \<open>peerDependencies\<close> hold it no more, and the migration warning is given.
\<close>

theorem tslib_injected_or_moved:
  assumes "writePackageJson ext now e pkg a watch mode w = (None, w')"
  shows "\<exists>pj. ops w' = ops w @ [WriteFile (path_join (destinationPath e) ''package.json'') (Json pj)] \<and>
           manifestAt w' (path_join (destinationPath e) ''package.json'') = Some pj \<and>
           (getProp (dependencies (packageJson e)) ''tslib'' = None \<and>
            getProp (peerDependencies (packageJson e)) ''tslib'' = None \<and>
            js_or (getProp (peerDependencies (angularCompilerPackageJson ext)) ''tslib'')
                  (getProp (dependencies (angularCompilerPackageJson ext)) ''tslib'') = Some v \<and>
            v \<noteq> [] \<longrightarrow>
              getProp (dependencies pj) ''tslib'' = Some v) \<and>
           (getProp (peerDependencies (packageJson e)) ''tslib'' = Some u \<and> u \<noteq> [] \<longrightarrow>
              getProp (dependencies pj) ''tslib'' = Some u \<and>
              getProp (peerDependencies pj) ''tslib'' = None \<and>
              SpinnerWarn tslibMovedWarning \<in> set (logs w'))"
proof -
  from written_manifest [OF assms] obtain pj where
    o: "ops w' = ops w @ [WriteFile (path_join (destinationPath e) ''package.json'') (Json pj)]"
    and m: "manifestAt w' (path_join (destinationPath e) ''package.json'') = Some pj"
    and d: "dependencies pj = dependencies (fst (assembleManifest ext now e a watch))"
    and p: "peerDependencies pj = peerDependencies (fst (assembleManifest ext now e a watch))"
    and l: "set (snd (assembleManifest ext now e a watch)) \<subseteq> set (logs w')"
    by blast
  have 1: "getProp (dependencies (packageJson e)) ''tslib'' = None \<and>
            getProp (peerDependencies (packageJson e)) ''tslib'' = None \<and>
            js_or (getProp (peerDependencies (angularCompilerPackageJson ext)) ''tslib'')
                  (getProp (dependencies (angularCompilerPackageJson ext)) ''tslib'') = Some v \<and>
            v \<noteq> [] \<longrightarrow>
              getProp (dependencies pj) ''tslib'' = Some v"
    by (auto simp: d assembleManifest_def Let_def tslibStep_def mergeProperties_def truthy_def
        getProp_def update_conv)
  have 2: "getProp (peerDependencies (packageJson e)) ''tslib'' = Some u \<and> u \<noteq> [] \<longrightarrow>
              getProp (dependencies pj) ''tslib'' = Some u \<and>
              getProp (peerDependencies pj) ''tslib'' = None \<and>
              SpinnerWarn tslibMovedWarning \<in> set (snd (assembleManifest ext now e a watch))"
    by (auto simp: d p assembleManifest_def Let_def tslibStep_def mergeProperties_def truthy_def
        getProp_def update_conv delete_conv split: option.splits)
  from o m 1 2 l show ?thesis by blast
qed

theorem tslib_injected_or_moved_witness:
  "fst (runWrite examplePrimary Partial) = None \<and>
   getProp (dependencies (packageJson examplePrimary)) ''tslib'' = None \<and>
   getProp (peerDependencies (packageJson examplePrimary)) ''tslib'' = None \<and>
   js_or (getProp (peerDependencies (angularCompilerPackageJson exampleExt)) ''tslib'')
         (getProp (dependencies (angularCompilerPackageJson exampleExt)) ''tslib'')
     = Some ''^2.3.0'' \<and>
   map_option (\<lambda>m. getProp (dependencies m) ''tslib'')
     (writtenManifest (runWrite examplePrimary Partial)) = Some (Some ''^2.3.0'') \<and>
   fst (runWrite (peerEntry [(''tslib'', ''^2.6.0'')]) Partial) = None \<and>
   getProp (peerDependencies (packageJson (peerEntry [(''tslib'', ''^2.6.0'')]))) ''tslib''
     = Some ''^2.6.0'' \<and>
   map_option (\<lambda>m. getProp (dependencies m) ''tslib'')
     (writtenManifest (runWrite (peerEntry [(''tslib'', ''^2.6.0'')]) Partial))
     = Some (Some ''^2.6.0'') \<and>
   map_option (\<lambda>m. getProp (peerDependencies m) ''tslib'')
     (writtenManifest (runWrite (peerEntry [(''tslib'', ''^2.6.0'')]) Partial)) = Some None \<and>
   SpinnerWarn tslibMovedWarning \<in>
     set (logs (snd (runWrite (peerEntry [(''tslib'', ''^2.6.0'')]) Partial)))"
proof -
  let ?p = "peerEntry [(''tslib'', ''^2.6.0'')]"
  have f1: "fst (runWrite examplePrimary Partial) = None" by (rule runWrite_primary)
  have f2: "fst (runWrite ?p Partial) = None" by (rule runWrite_peer)
  have h1: "getProp (dependencies (packageJson examplePrimary)) ''tslib'' = None"
    "getProp (peerDependencies (packageJson examplePrimary)) ''tslib'' = None"
    "js_or (getProp (peerDependencies (angularCompilerPackageJson exampleExt)) ''tslib'')
         (getProp (dependencies (angularCompilerPackageJson exampleExt)) ''tslib'')
       = Some ''^2.3.0''"
    by (simp_all add: example_defs getProp_def js_or_def truthy_def)
  have h2: "getProp (peerDependencies (packageJson ?p)) ''tslib'' = Some ''^2.6.0''"
    by (simp add: run_defs example_defs getProp_def)
  have d: "destinationPath examplePrimary = ''/work/dist/lib''"
    "destinationPath ?p = ''/work/dist/lib''"
    by (simp_all add: run_defs example_defs)
  from tslib_injected_or_moved [OF outcome_of_fst [OF f1, unfolded runWrite_def],
      of "''^2.3.0''" "[]"] h1
  have 1: "map_option (\<lambda>m. getProp (dependencies m) ''tslib'')
      (writtenManifest (runWrite examplePrimary Partial)) = Some (Some ''^2.3.0'')"
    by (auto simp: writtenManifest_def runWrite_def d example_manifest_path)
  from tslib_injected_or_moved [OF outcome_of_fst [OF f2, unfolded runWrite_def],
      of "[]" "''^2.6.0''"] h2
  have 2: "map_option (\<lambda>m. getProp (dependencies m) ''tslib'')
      (writtenManifest (runWrite ?p Partial)) = Some (Some ''^2.6.0'')"
    "map_option (\<lambda>m. getProp (peerDependencies m) ''tslib'')
      (writtenManifest (runWrite ?p Partial)) = Some None"
    "SpinnerWarn tslibMovedWarning \<in> set (logs (snd (runWrite ?p Partial)))"
    by (auto simp: writtenManifest_def runWrite_def d example_manifest_path)
  from f1 f2 h1 h2 1 2 show ?thesis by simp
qed

section \<open>The versions of watch-mode writes\<close>

lemma runWatch_primary: "fst (runWatch examplePrimary now) = None"
  by (simp add: runWatch_def built_defs example_defs write_defs)

text \<open>
  Claim C7 says that of two watch-mode manifest writes at timestamps \<open>t1 < t2\<close> the
  later one carries the strictly greater version string. Version strings are compared as
  strings, character by character. The manifest written in watch mode at the time
  \<open>9999999999999\<close> has a greater version than the one written at \<open>10000000000000\<close>.
\<close>

theorem watch_version_not_monotonic:
  "fst (runWatch examplePrimary 9999999999999) = None \<and>
   fst (runWatch examplePrimary 10000000000000) = None \<and>
   map_option version (writtenManifest (runWatch examplePrimary 9999999999999)) =
     Some (Some ''0.0.0-watch+9999999999999'') \<and>
   map_option version (writtenManifest (runWatch examplePrimary 10000000000000)) =
     Some (Some ''0.0.0-watch+10000000000000'') \<and>
   (9999999999999 :: int) < 10000000000000 \<and>
   \<not> ''0.0.0-watch+9999999999999'' < ''0.0.0-watch+10000000000000''"
proof -
  have v: "generateWatchVersion 9999999999999 = ''0.0.0-watch+9999999999999''"
    "generateWatchVersion 10000000000000 = ''0.0.0-watch+10000000000000''"
    by (simp_all add: generateWatchVersion_def string_of_int_def string_of_nat.simps
        digit_char_def)
  have m: "map_option version (writtenManifest (runWatch examplePrimary now)) =
      Some (Some (generateWatchVersion now))" for now
    by (simp add: runWatch_def writtenManifest_def built_defs example_defs write_defs path_defs)
  from generateWatchVersion_not_monotonic runWatch_primary m [of 9999999999999]
    m [of 10000000000000]
  show ?thesis by (simp add: v)
qed

text \<open>
  Claim C7 as amended: each of two watch-mode runs of \<open>writePackageJson\<close>, at the
  timestamps \<open>t1\<close> and \<open>t2\<close>, writes a manifest whose version is the watch version of
  its timestamp. When the timestamps differ, the two versions are different strings;
  when the timestamps are not negative and have the same number of decimal digits, the
  version written at the later timestamp is the strictly greater string.
\<close>

theorem watch_writes_distinct_and_ordered:
  assumes "writePackageJson ext1 t1 e1 pkg1 a1 True mode1 w1 = (None, w1')"
    and "writePackageJson ext2 t2 e2 pkg2 a2 True mode2 w2 = (None, w2')"
  shows "\<exists>pj1 pj2 v1 v2.
           ops w1' = ops w1 @
             [WriteFile (path_join (destinationPath e1) ''package.json'') (Json pj1)] \<and>
           ops w2' = ops w2 @
             [WriteFile (path_join (destinationPath e2) ''package.json'') (Json pj2)] \<and>
           manifestAt w1' (path_join (destinationPath e1) ''package.json'') = Some pj1 \<and>
           manifestAt w2' (path_join (destinationPath e2) ''package.json'') = Some pj2 \<and>
           version pj1 = Some v1 \<and> v1 = generateWatchVersion t1 \<and>
           version pj2 = Some v2 \<and> v2 = generateWatchVersion t2 \<and>
           (t1 \<noteq> t2 \<longrightarrow> v1 \<noteq> v2) \<and>
           (0 \<le> t1 \<and> t1 < t2 \<and> length (string_of_int t1) = length (string_of_int t2) \<longrightarrow>
              v1 < v2)"
proof -
  from written_manifest [OF assms(1)] obtain pj1 where
    1: "ops w1' = ops w1 @
          [WriteFile (path_join (destinationPath e1) ''package.json'') (Json pj1)]"
       "manifestAt w1' (path_join (destinationPath e1) ''package.json'') = Some pj1"
       "version pj1 = Some (generateWatchVersion t1)"
    by (auto simp: assembleManifest_version)
  from written_manifest [OF assms(2)] obtain pj2 where
    2: "ops w2' = ops w2 @
          [WriteFile (path_join (destinationPath e2) ''package.json'') (Json pj2)]"
       "manifestAt w2' (path_join (destinationPath e2) ''package.json'') = Some pj2"
       "version pj2 = Some (generateWatchVersion t2)"
    by (auto simp: assembleManifest_version)
  from 1 2 generateWatchVersion_distinct_and_ordered [of t1 t2]
  show ?thesis by blast
qed

theorem watch_writes_distinct_and_ordered_witness:
  "fst (runWatch examplePrimary 1700000000000) = None \<and>
   fst (runWatch examplePrimary 1700000000001) = None \<and>
   (1700000000000 :: int) \<noteq> 1700000000001 \<and>
   length (string_of_int 1700000000000) = length (string_of_int 1700000000001) \<and>
   map_option version (writtenManifest (runWatch examplePrimary 1700000000000)) =
     Some (Some (generateWatchVersion 1700000000000)) \<and>
   map_option version (writtenManifest (runWatch examplePrimary 1700000000001)) =
     Some (Some (generateWatchVersion 1700000000001)) \<and>
   generateWatchVersion 1700000000000 \<noteq> generateWatchVersion 1700000000001 \<and>
   generateWatchVersion 1700000000000 < generateWatchVersion 1700000000001"
proof -
  have f: "fst (runWatch examplePrimary 1700000000000) = None"
    "fst (runWatch examplePrimary 1700000000001) = None"
    by (rule runWatch_primary)+
  have l: "length (string_of_int 1700000000000) = length (string_of_int 1700000000001)"
    by (simp add: string_of_int_def string_of_nat.simps)
  have d: "destinationPath examplePrimary = ''/work/dist/lib''"
    by (simp add: example_defs)
  from watch_writes_distinct_and_ordered
    [OF outcome_of_fst [OF f(1), unfolded runWatch_def]
        outcome_of_fst [OF f(2), unfolded runWatch_def]]
  obtain pj1 pj2 where
    "manifestAt (snd (runWatch examplePrimary 1700000000000)) ''/work/dist/lib/package.json'' =
       Some pj1"
    "manifestAt (snd (runWatch examplePrimary 1700000000001)) ''/work/dist/lib/package.json'' =
       Some pj2"
    "version pj1 = Some (generateWatchVersion 1700000000000)"
    "version pj2 = Some (generateWatchVersion 1700000000001)"
    "generateWatchVersion 1700000000000 \<noteq> generateWatchVersion 1700000000001"
    "generateWatchVersion 1700000000000 < generateWatchVersion 1700000000001"
    using l by (auto simp: runWatch_def d example_manifest_path)
  with f l show ?thesis by (simp add: writtenManifest_def)
qed

section \<open>Secondary entry points\<close>

lemmas secondary_defs =
  primaryWritten_def secondaryWorld_def unparsedWorld_def plainHost_def noOptions_def





section \<open>Resolving a bare string\<close>

text \<open>
  Claim C5: a bare string is probed under the source root. When the probe finds a
  directory, the entry is the glob \<open>**/*\<close> with the string as input and output. When it
  finds a file, the entry is the string's base name as glob, with its directory name as
  input and output. When the probe fails (the failure is caught, no error comes out of
  it) or finds neither, the entry is the string as glob with \<open>/\<close> as input and output,
  so that its input, once joined, is the source root.
\<close>

theorem bare_string_resolution:
  "(fs_stat f (path_join (src ngPackage) assetPath) = Inr stats \<and> isDirectory stats \<longrightarrow>
      resolveAssetPattern f ngPackage (AssetString assetPath) =
        \<lparr>glob = ''**/*'', input = assetPath, output = assetPath,
         ignore = None, followSymlinks = None\<rparr>) \<and>
   (fs_stat f (path_join (src ngPackage) assetPath) = Inr stats \<and>
    \<not> isDirectory stats \<and> isFile stats \<longrightarrow>
      resolveAssetPattern f ngPackage (AssetString assetPath) =
        \<lparr>glob = path_basename assetPath, input = path_dirname assetPath,
         output = path_dirname assetPath, ignore = None, followSymlinks = None\<rparr>) \<and>
   (fs_stat f (path_join (src ngPackage) assetPath) = Inl e \<or>
    fs_stat f (path_join (src ngPackage) assetPath) = Inr stats \<and>
      \<not> isDirectory stats \<and> \<not> isFile stats \<longrightarrow>
      resolveAssetPattern f ngPackage (AssetString assetPath) =
        \<lparr>glob = assetPath, input = ''/'', output = ''/'', ignore = None, followSymlinks = None\<rparr> \<and>
      input (rootAsset ngPackage (resolveAssetPattern f ngPackage (AssetString assetPath))) =
        path_join (src ngPackage) ''/'')"
  by (auto simp: resolveAssetPattern_def probe_def rootAsset_def)

theorem bare_string_resolution_witness:
  "fs_stat docsFiles (path_join (src (examplePackage [] [])) ''docs'') =
     Inr \<lparr>isDirectory = True, isFile = False\<rparr> \<and>
   resolveAssetPattern docsFiles (examplePackage [] []) (AssetString ''docs'') =
     \<lparr>glob = ''**/*'', input = ''docs'', output = ''docs'', ignore = None, followSymlinks = None\<rparr> \<and>
   fs_stat docsFiles (path_join (src (examplePackage [] [])) ''docs/a.md'') =
     Inr \<lparr>isDirectory = False, isFile = True\<rparr> \<and>
   resolveAssetPattern docsFiles (examplePackage [] []) (AssetString ''docs/a.md'') =
     \<lparr>glob = ''a.md'', input = ''docs'', output = ''docs'', ignore = None, followSymlinks = None\<rparr> \<and>
   fs_stat docsFiles (path_join (src (examplePackage [] [])) ''notes/*.txt'') =
     Inl (Error ''ENOENT'') \<and>
   resolveAssetPattern docsFiles (examplePackage [] []) (AssetString ''notes/*.txt'') =
     \<lparr>glob = ''notes/*.txt'', input = ''/'', output = ''/'', ignore = None, followSymlinks = None\<rparr> \<and>
   input (rootAsset (examplePackage [] [])
       (resolveAssetPattern docsFiles (examplePackage [] []) (AssetString ''notes/*.txt''))) =
     ''/work/lib/''"
proof -
  have 1: "fs_stat docsFiles (path_join (src (examplePackage [] [])) ''docs'') =
     Inr \<lparr>isDirectory = True, isFile = False\<rparr>"
    and 2: "fs_stat docsFiles (path_join (src (examplePackage [] [])) ''docs/a.md'') =
     Inr \<lparr>isDirectory = False, isFile = True\<rparr>"
    and 3: "fs_stat docsFiles (path_join (src (examplePackage [] [])) ''notes/*.txt'') =
     Inl (Error ''ENOENT'')"
    by (simp_all add: fs_stat_def example_defs path_defs)
  have b: "path_basename ''docs/a.md'' = ''a.md''" and d: "path_dirname ''docs/a.md'' = ''docs''"
    and j: "path_join (src (examplePackage [] [])) ''/'' = ''/work/lib/''"
    by (simp_all add: example_defs path_defs)
  from bare_string_resolution [of docsFiles "examplePackage [] []" "''docs''"
      "\<lparr>isDirectory = True, isFile = False\<rparr>"]
    bare_string_resolution [of docsFiles "examplePackage [] []" "''docs/a.md''"
      "\<lparr>isDirectory = False, isFile = True\<rparr>"]
    bare_string_resolution [of docsFiles "examplePackage [] []" "''notes/*.txt''"
      _ "Error ''ENOENT''"]
    1 2 3 b d j
  show ?thesis by (simp add: rootAsset_def)
qed

section \<open>The worker pool\<close>

text \<open>
  Claim C9 says that the compile cache directory is not propagated when the variable
  \<open>RUNFILES\<close> is set. The constructor tests the value of the variable for truthiness:
  with \<open>RUNFILES\<close> set to the empty string, the directory the host reports is put into
  the workers' environment as \<open>NODE_COMPILE_CACHE\<close>.
\<close>

theorem empty_RUNFILES_counterexample:
  "map_of (processEnv (plainHost\<lparr>processEnv := [(''RUNFILES'', [])]\<rparr>)) ''RUNFILES'' = Some [] \<and>
   env (WorkerPool (plainHost\<lparr>processEnv := [(''RUNFILES'', [])]\<rparr>) noOptions) =
     Some (EnvObject [(''RUNFILES'', []), (''NODE_COMPILE_CACHE'', ''/tmp/cache'')])"
  by (simp add: WorkerPool_def compileCacheDirectory_def piscinaDefaults_def truthy_def
      secondary_defs Let_def)

text \<open>
  Claim C9 as amended. Synchronisation: when the caller gives no \<open>atomics\<close> option, the
  pool is built with \<open>disabled\<close> if \<open>process.versions.webcontainer\<close> is a non-empty
  string and with \<open>sync\<close> if it is missing or empty; an \<open>atomics\<close> option of the
  caller is passed on as it is. Compile cache: when \<open>RUNFILES\<close> has a non-empty value,
  the environment option is the caller's, untouched; when \<open>RUNFILES\<close> is unset or
  empty and the host reports a non-empty cache directory, the pool is built with an
  environment object that holds the directory under \<open>NODE_COMPILE_CACHE\<close>.
\<close>

theorem worker_pool_configuration:
  "(atomics options = None \<and> webcontainer h = Some v \<and> v \<noteq> [] \<longrightarrow>
      atomics (WorkerPool h options) = Some AtomicsDisabled) \<and>
   (atomics options = None \<and> (webcontainer h = None \<or> webcontainer h = Some []) \<longrightarrow>
      atomics (WorkerPool h options) = Some AtomicsSync) \<and>
   (atomics options = Some a \<longrightarrow> atomics (WorkerPool h options) = Some a) \<and>
   (map_of (processEnv h) ''RUNFILES'' = Some r \<and> r \<noteq> [] \<longrightarrow>
      env (WorkerPool h options) = env options) \<and>
   ((map_of (processEnv h) ''RUNFILES'' = None \<or> map_of (processEnv h) ''RUNFILES'' = Some []) \<and>
    getCompileCacheDir h = Some (Some d) \<and> d \<noteq> [] \<longrightarrow>
      (\<exists>e. env (WorkerPool h options) = Some (EnvObject e) \<and>
           map_of e ''NODE_COMPILE_CACHE'' = Some d))"
  by (auto simp: WorkerPool_def compileCacheDirectory_def piscinaDefaults_def truthy_def
      orDefault_def update_conv Let_def split: option.splits EnvSpecifier.splits)

theorem worker_pool_configuration_witness:
  "atomics (WorkerPool (plainHost\<lparr>webcontainer := Some ''1.1.9''\<rparr>) noOptions) =
     Some AtomicsDisabled \<and>
   atomics (WorkerPool plainHost noOptions) = Some AtomicsSync \<and>
   atomics (WorkerPool (plainHost\<lparr>webcontainer := Some ''1.1.9''\<rparr>)
              (noOptions\<lparr>atomics := Some AtomicsAsync\<rparr>)) = Some AtomicsAsync \<and>
   map_of (processEnv (plainHost\<lparr>processEnv := [(''RUNFILES'', ''/bazel/runfiles'')]\<rparr>))
     ''RUNFILES'' = Some ''/bazel/runfiles'' \<and>
   env (WorkerPool (plainHost\<lparr>processEnv := [(''RUNFILES'', ''/bazel/runfiles'')]\<rparr>) noOptions) =
     None \<and>
   map_of (processEnv plainHost) ''RUNFILES'' = None \<and>
   getCompileCacheDir plainHost = Some (Some ''/tmp/cache'') \<and>
   env (WorkerPool plainHost noOptions) =
     Some (EnvObject [(''PATH'', ''/bin''), (''NODE_COMPILE_CACHE'', ''/tmp/cache'')])"
proof -
  let ?web = "plainHost\<lparr>webcontainer := Some ''1.1.9''\<rparr>"
  let ?bazel = "plainHost\<lparr>processEnv := [(''RUNFILES'', ''/bazel/runfiles'')]\<rparr>"
  have h: "atomics noOptions = None" "webcontainer ?web = Some ''1.1.9''"
    "webcontainer plainHost = None"
    "atomics (noOptions\<lparr>atomics := Some AtomicsAsync\<rparr>) = Some AtomicsAsync"
    "map_of (processEnv ?bazel) ''RUNFILES'' = Some ''/bazel/runfiles''"
    "env noOptions = None"
    "map_of (processEnv plainHost) ''RUNFILES'' = None"
    "getCompileCacheDir plainHost = Some (Some ''/tmp/cache'')"
    by (simp_all add: secondary_defs)
  have e: "env (WorkerPool plainHost noOptions) =
     Some (EnvObject [(''PATH'', ''/bin''), (''NODE_COMPILE_CACHE'', ''/tmp/cache'')])"
    by (simp add: WorkerPool_def compileCacheDirectory_def piscinaDefaults_def truthy_def
        secondary_defs Let_def)
  from worker_pool_configuration [of noOptions ?web "''1.1.9''" AtomicsAsync "[]" "[]"]
    worker_pool_configuration [of noOptions plainHost "[]" AtomicsAsync "[]" "''/tmp/cache''"]
    worker_pool_configuration [of "noOptions\<lparr>atomics := Some AtomicsAsync\<rparr>" ?web "[]"
      AtomicsAsync "[]" "[]"]
    worker_pool_configuration [of noOptions ?bazel "[]" AtomicsAsync "''/bazel/runfiles''" "[]"]
    h e
  show ?thesis by simp
qed

end
